theory Spec2Isabelle
  imports Complex_Main
begin

section \<open>Decimal strings\<close>

text \<open>
  The engine keeps every amount as a decimal string and computes on them with the
  arbitrary-precision library \<^verbatim>\<open>biggystring\<close> (\<^verbatim>\<open>bns.add\<close>, \<^verbatim>\<open>bns.sub\<close>,
  \<^verbatim>\<open>bns.abs\<close>, \<^verbatim>\<open>bns.gt\<close>, \<^verbatim>\<open>bns.eq\<close>). The library is an external package; it is
  modelled by its contract, exact arithmetic and comparison on the decimal value that a
  string denotes. A decimal numeral is an optional \<^verbatim>\<open>-\<close>, digits, and optionally a point
  followed by digits. An operand that is not such a numeral makes the call throw
  (the result \<open>None\<close> here).
\<close>

definition digit_char :: "nat \<Rightarrow> char" where
  "digit_char n = ''0123456789'' ! n"

definition is_digit :: "char \<Rightarrow> bool" where
  "is_digit c = (48 \<le> (of_char c :: nat) \<and> (of_char c :: nat) \<le> 57)"

definition digit_val :: "char \<Rightarrow> nat" where
  "digit_val c = of_char c - 48"

fun show_nat :: "nat \<Rightarrow> string" where
  "show_nat n = (if n < 10 then [digit_char n] else show_nat (n div 10) @ [digit_char (n mod 10)])"

declare show_nat.simps [simp del]

text \<open>
  \<^verbatim>\<open>Number.prototype.toString\<close> and the template \<^verbatim>\<open>`${n}`\<close> on an integer-valued
  number. Block heights, amounts and fees of this ledger are whole numbers of the
  smallest unit, so a JavaScript number is an \<open>int\<close> here.
\<close>

definition show_int :: "int \<Rightarrow> string" where
  "show_int i = (if i < 0 then CHR ''-'' # show_nat (nat (- i)) else show_nat (nat i))"

definition digits_val :: "string \<Rightarrow> nat" where
  "digits_val ds = foldl (\<lambda>a c. 10 * a + digit_val c) 0 ds"

definition is_digits :: "string \<Rightarrow> bool" where
  "is_digits ds = (ds \<noteq> [] \<and> list_all is_digit ds)"

text \<open>A decimal value \<open>mant / 10 ^ scale\<close>.\<close>

datatype decimal = Decimal (mant: int) (scale: nat)

definition dval :: "decimal \<Rightarrow> rat" where
  "dval d = of_int (mant d) / 10 ^ scale d"

definition parse_unsigned :: "string \<Rightarrow> decimal option" where
  "parse_unsigned s =
     (let ip = takeWhile (\<lambda>c. c \<noteq> CHR ''.'') s;
          rest = dropWhile (\<lambda>c. c \<noteq> CHR ''.'') s
      in if \<not> is_digits ip then None
         else (case rest of
                 [] \<Rightarrow> Some (Decimal (int (digits_val ip)) 0)
               | _ # fp \<Rightarrow>
                   if is_digits fp
                   then Some (Decimal (int (digits_val (ip @ fp))) (length fp))
                   else None))"

definition dneg :: "decimal \<Rightarrow> decimal" where
  "dneg a = Decimal (- mant a) (scale a)"

definition parse_decimal :: "string \<Rightarrow> decimal option" where
  "parse_decimal s =
     (case s of
        [] \<Rightarrow> None
      | c # r \<Rightarrow>
          if c = CHR ''-'' then map_option dneg (parse_unsigned r)
          else parse_unsigned s)"

fun dnorm :: "int \<Rightarrow> nat \<Rightarrow> decimal" where
  "dnorm m 0 = Decimal m 0"
| "dnorm m (Suc k) = (if m mod 10 = 0 then dnorm (m div 10) k else Decimal m (Suc k))"

fun pad_digits :: "nat \<Rightarrow> nat \<Rightarrow> string" where
  "pad_digits 0 n = []"
| "pad_digits (Suc k) n = pad_digits k (n div 10) @ [digit_char (n mod 10)]"

definition show_decimal :: "decimal \<Rightarrow> string" where
  "show_decimal d =
     (case dnorm (mant d) (scale d) of
        Decimal m k \<Rightarrow>
          (if m < 0 then ''-'' else []) @
          show_nat (nat \<bar>m\<bar> div 10 ^ k) @
          (if k = 0 then [] else CHR ''.'' # pad_digits k (nat \<bar>m\<bar> mod 10 ^ k)))"

definition dadd :: "decimal \<Rightarrow> decimal \<Rightarrow> decimal" where
  "dadd a b = Decimal (mant a * 10 ^ scale b + mant b * 10 ^ scale a) (scale a + scale b)"

definition dsub :: "decimal \<Rightarrow> decimal \<Rightarrow> decimal" where
  "dsub a b = Decimal (mant a * 10 ^ scale b - mant b * 10 ^ scale a) (scale a + scale b)"

definition dabs :: "decimal \<Rightarrow> decimal" where
  "dabs a = Decimal \<bar>mant a\<bar> (scale a)"

definition dless :: "decimal \<Rightarrow> decimal \<Rightarrow> bool" where
  "dless a b = (mant a * 10 ^ scale b < mant b * 10 ^ scale a)"

definition deq :: "decimal \<Rightarrow> decimal \<Rightarrow> bool" where
  "deq a b = (mant a * 10 ^ scale b = mant b * 10 ^ scale a)"

definition bns_add :: "string \<Rightarrow> string \<Rightarrow> string option" where
  "bns_add x y =
     (case parse_decimal x of
        None \<Rightarrow> None
      | Some a \<Rightarrow>
          (case parse_decimal y of
             None \<Rightarrow> None
           | Some b \<Rightarrow> Some (show_decimal (dadd a b))))"

definition bns_sub :: "string \<Rightarrow> string \<Rightarrow> string option" where
  "bns_sub x y =
     (case parse_decimal x of
        None \<Rightarrow> None
      | Some a \<Rightarrow>
          (case parse_decimal y of
             None \<Rightarrow> None
           | Some b \<Rightarrow> Some (show_decimal (dsub a b))))"

definition bns_abs :: "string \<Rightarrow> string option" where
  "bns_abs x = map_option (\<lambda>a. show_decimal (dabs a)) (parse_decimal x)"

definition bns_gt :: "string \<Rightarrow> string \<Rightarrow> bool option" where
  "bns_gt x y =
     (case parse_decimal x of
        None \<Rightarrow> None
      | Some a \<Rightarrow>
          (case parse_decimal y of
             None \<Rightarrow> None
           | Some b \<Rightarrow> Some (dless b a)))"

definition bns_eq :: "string \<Rightarrow> string \<Rightarrow> bool option" where
  "bns_eq x y =
     (case parse_decimal x of
        None \<Rightarrow> None
      | Some a \<Rightarrow>
          (case parse_decimal y of
             None \<Rightarrow> None
           | Some b \<Rightarrow> Some (deq a b)))"

section \<open>Data model\<close>

text \<open>
  A record of the history node (\<^verbatim>\<open>FioTransactionSuperNode\<close>). Its field \<^verbatim>\<open>notes\<close> is
  \<open>transfer_notes\<close>, \<open>notes\<close> being a keyword of Isabelle.
\<close>

record FioTransactionSuperNode =
  block_height :: int
  block_time :: string
  payer :: string
  payee :: string
  payee_public_key :: string
  transfer_amount :: int
  fee_amount :: int
  transaction_total :: int
  transfer_notes :: string
  action :: string
  tpid :: string
  transaction_id :: string

text \<open>
  The \<^verbatim>\<open>date\<close> of a transaction is seconds since the epoch. \<^verbatim>\<open>Date.parse\<close> belongs to
  the platform, so \<^verbatim>\<open>Date.parse(block_time) / 1000\<close> is kept symbolic.
\<close>

datatype js_date = Seconds rat | DateParseSeconds string

text \<open>The one action of the \<^verbatim>\<open>transactionJson\<close> that \<^verbatim>\<open>makeSpend\<close> builds.\<close>

record transactionAction =
  account :: string
  actionName :: string
  authorizationActor :: string
  authorizationPermission :: string
  dataFrom :: string
  dataTo :: string
  dataQuantity :: string
  dataMemo :: string

text \<open>
  \<^verbatim>\<open>EdgeTransaction\<close>. \<open>otherParams\<close> holds the actions of
  \<^verbatim>\<open>otherParams.transactionJson\<close>, \<open>None\<close> for \<^verbatim>\<open>{}\<close>; \<open>metadata\<close> holds
  \<^verbatim>\<open>(metadata.name, metadata.notes)\<close>; the transaction's \<^verbatim>\<open>blockHeight\<close> is
  \<open>txBlockHeight\<close>, the name \<open>blockHeight\<close> being the wallet's.
\<close>

record EdgeTransaction =
  txid :: string
  date :: js_date
  currencyCode :: string
  txBlockHeight :: int
  nativeAmount :: string
  networkFee :: string
  parentNetworkFee :: "string option"
  ourReceiveAddresses :: "string list"
  signedTx :: string
  otherParams :: "transactionAction list option"
  metadata :: "(string \<times> string) option"

record fioAddress =
  name :: string
  expiration :: string

record fioDomain = fioAddress +
  isPublic :: bool

text \<open>The callbacks of the wallet core, as the list of the calls made so far.\<close>

datatype callback =
    OnBalanceChanged string string
  | OnBlockHeightChanged int
  | OnTransactionsChanged "EdgeTransaction list"

text \<open>
  Two helpers of the base class \<^verbatim>\<open>CurrencyEngine\<close> (\<^verbatim>\<open>src/common/engine.js\<close>, which
  is not among the sources) report sync progress and look for dropped transactions. The
  spec gives them no effect on the ledger state; a call is recorded and nothing more.
\<close>

datatype baseCall = UpdateOnAddressesChecked | CheckDroppedTransactionsThrottled

text \<open>
  The engine: the fields of \<^verbatim>\<open>walletLocalData\<close> (\<open>blockHeight\<close>, \<open>totalBalances\<close>), of
  \<^verbatim>\<open>walletLocalData.otherData\<close> (\<open>highestTxHeight\<close>, \<open>feeTransactions\<close>,
  \<open>fioAddresses\<close>, \<open>fioDomains\<close>), of the engine itself and of its base class, and
  \<^verbatim>\<open>walletInfo.keys.publicKey\<close>. \<open>getTransfersRequests\<close> is not a field of the class: it
  lists the cursor positions sent to the history node, so that what a cycle asked for can
  be stated.
\<close>

record engine =
  publicKey :: string
  blockHeight :: int
  totalBalances :: "string \<rightharpoonup> string"
  highestTxHeight :: int
  feeTransactions :: "string list"
  fioAddresses :: "fioAddress list"
  fioDomains :: "fioDomain list"
  walletLocalDataDirty :: bool
  transactionList :: "string \<rightharpoonup> EdgeTransaction list"
  transactionsChangedArray :: "EdgeTransaction list"
  tokenCheckBalanceStatus :: "string \<rightharpoonup> nat"
  tokenCheckTransactionsStatus :: "string \<rightharpoonup> nat"
  callbacksLog :: "callback list"
  baseCalls :: "baseCall list"
  getTransfersRequests :: "int list"

text \<open>
  What a call of the FIO SDK throws: \<^verbatim>\<open>e.errorCode\<close> (absent on a transport
  failure), \<^verbatim>\<open>e.message\<close>, \<^verbatim>\<open>e.json\<close>, \<^verbatim>\<open>e.list\<close>. \<^verbatim>\<open>FioError\<close> has the same
  fields.
\<close>

record apiError =
  errorCode :: "int option"
  message :: string
  json :: string
  list :: "(string \<times> string) list"

datatype error =
    InsufficientFundsError
  | FioError apiError
  | SdkError apiError
  | AllEndpointsFailed
  | TypeError
  | BnsError
  | Error string

text \<open>
  A method that mutates the engine and may throw returns how it completed together with
  the engine as it left it: what it wrote before throwing stays written.
\<close>

datatype 'a completion = Return 'a | Throw error

section \<open>The endpoint waterfall\<close>

definition fioApiErrorCodes :: "int list" where
  "fioApiErrorCodes = [400, 403, 404]"

text \<open>
  Modelled from the spec: \<^verbatim>\<open>asyncWaterfall\<close> of \<^verbatim>\<open>src/common/utils\<close> is not among the
  sources. The spec's FailoverInvoker attempts the endpoints in list order and returns the
  result of the first attempt that completes; if every attempt fails it fails with an
  aggregated error. An endpoint is given by what its closure does when invoked (\<open>Inl\<close>:
  it throws); the second component counts the closures invoked.
\<close>

fun asyncWaterfall :: "(error + 'a) list \<Rightarrow> (error + 'a) \<times> nat" where
  "asyncWaterfall [] = (Inl AllEndpointsFailed, 0)"
| "asyncWaterfall (Inr r # fs) = (Inr r, 1)"
| "asyncWaterfall (Inl e # fs) = (case asyncWaterfall fs of (res, n) \<Rightarrow> (res, Suc n))"

text \<open>
  What the closure of one endpoint returns: the SDK's response, or the object literal
  \<^verbatim>\<open>{isError: true, data: {code, message, json, list}}\<close>. \<^verbatim>\<open>res.isError\<close> is true of
  the literal and absent from a response of the SDK, so it is the constructor. The literal
  has no \<^verbatim>\<open>errorMessage\<close>, so reading it gives \<^verbatim>\<open>undefined\<close> (\<open>None\<close>).
\<close>

record errorData =
  dataCode :: "int option"
  dataMessage :: string
  dataJson :: string
  dataList :: "(string \<times> string) list"

datatype 'r endpointResult =
    SdkResponse 'r
  | ErrorObject (errorMessage: "string option") (data: errorData)

text \<open>\<^verbatim>\<open>e.errorCode && fioApiErrorCodes.indexOf(e.errorCode) > -1\<close>\<close>

definition isFioApiError :: "apiError \<Rightarrow> bool" where
  "isFioApiError e =
     (case errorCode e of
        None \<Rightarrow> False
      | Some c \<Rightarrow> c \<noteq> 0 \<and> c \<in> set fioApiErrorCodes)"

text \<open>
  The closure of one \<^verbatim>\<open>apiUrl\<close> in \<^verbatim>\<open>multicastServers\<close>, given what the SDK call does
  there (\<open>Inl e\<close>: it throws \<open>e\<close>).
\<close>

definition endpointClosure :: "apiError + 'r \<Rightarrow> error + 'r endpointResult" where
  "endpointClosure outcome =
     (case outcome of
        Inr res \<Rightarrow> Inr (SdkResponse res)
      | Inl e \<Rightarrow>
          if isFioApiError e
          then Inr (ErrorObject None
                 \<lparr>dataCode = errorCode e, dataMessage = message e,
                  dataJson = json e, dataList = list e\<rparr>)
          else Inl (SdkError e))"

text \<open>\<^verbatim>\<open>new FioError(m)\<close>: the message of an \<^verbatim>\<open>Error\<close> built from \<^verbatim>\<open>undefined\<close> is empty.\<close>

definition newFioError :: "string option \<Rightarrow> apiError" where
  "newFioError m =
     \<lparr>errorCode = None, message = (case m of None \<Rightarrow> [] | Some t \<Rightarrow> t),
      json = [], list = []\<rparr>"

text \<open>
  \<^verbatim>\<open>multicastServers\<close> for an action other than \<^verbatim>\<open>history\<close>, given what the SDK call
  does on each of \<^verbatim>\<open>apiUrls\<close>, in order. The second component counts the endpoints tried.
\<close>

definition multicastServers :: "(apiError + 'r) list \<Rightarrow> (error + 'r) \<times> nat" where
  "multicastServers outcomes =
     (case asyncWaterfall (map endpointClosure outcomes) of
        (Inl e, n) \<Rightarrow> (Inl e, n)
      | (Inr (SdkResponse res), n) \<Rightarrow> (Inr res, n)
      | (Inr (ErrorObject errMsg d), n) \<Rightarrow>
          (Inl (FioError ((newFioError errMsg)
                  \<lparr>json := dataJson d, list := dataList d, errorCode := dataCode d\<rparr>)), n))"

section \<open>The ledger cache\<close>

definition localDataDirty :: "engine \<Rightarrow> engine" where
  "localDataDirty s = s\<lparr>walletLocalDataDirty := True\<rparr>"

text \<open>
  Modelled from the spec: \<^verbatim>\<open>findTransaction\<close> and \<^verbatim>\<open>addTransaction\<close> are methods of the
  base class \<^verbatim>\<open>CurrencyEngine\<close>, which is not among the sources. The spec has
  \<^verbatim>\<open>findTransaction(currencyCode, txid)\<close> give an index or not-found (\<open>-1\<close>, as the caller
  tests \<^verbatim>\<open>index > -1\<close>), and \<^verbatim>\<open>addTransaction(currencyCode, transaction)\<close> append, mark
  dirty and queue a "transactions changed" notification.
\<close>

fun findIndex :: "('a \<Rightarrow> bool) \<Rightarrow> 'a list \<Rightarrow> int" where
  "findIndex P [] = - 1"
| "findIndex P (x # xs) =
     (if P x then 0 else (let i = findIndex P xs in if i < 0 then - 1 else i + 1))"

definition transactionsOf :: "engine \<Rightarrow> string \<Rightarrow> EdgeTransaction list" where
  "transactionsOf s cc = (case transactionList s cc of None \<Rightarrow> [] | Some txs \<Rightarrow> txs)"

definition findTransaction :: "string \<Rightarrow> string \<Rightarrow> engine \<Rightarrow> int" where
  "findTransaction cc tid s = findIndex (\<lambda>tx. txid tx = tid) (transactionsOf s cc)"

definition addTransaction :: "string \<Rightarrow> EdgeTransaction \<Rightarrow> engine \<Rightarrow> engine" where
  "addTransaction cc tx s =
     localDataDirty
       (s\<lparr>transactionList := (transactionList s)(cc \<mapsto> transactionsOf s cc @ [tx]),
          transactionsChangedArray := transactionsChangedArray s @ [tx]\<rparr>)"

text \<open>
  Modelled from the spec: \<^verbatim>\<open>updateOnAddressesChecked\<close> and
  \<^verbatim>\<open>checkDroppedTransactionsThrottled\<close> are methods of the base class, which is not among
  the sources. The spec gives them no effect on the ledger state: the call is recorded.
\<close>

definition updateOnAddressesChecked :: "engine \<Rightarrow> engine" where
  "updateOnAddressesChecked s = s\<lparr>baseCalls := baseCalls s @ [UpdateOnAddressesChecked]\<rparr>"

definition checkDroppedTransactionsThrottled :: "engine \<Rightarrow> engine" where
  "checkDroppedTransactionsThrottled s =
     s\<lparr>baseCalls := baseCalls s @ [CheckDroppedTransactionsThrottled]\<rparr>"

definition emit :: "callback \<Rightarrow> engine \<Rightarrow> engine" where
  "emit c s = s\<lparr>callbacksLog := callbacksLog s @ [c]\<rparr>"

text \<open>
  \<^verbatim>\<open>updateBalance(tk, balance)\<close>. An undefined cached balance is first set to \<^verbatim>\<open>'0'\<close>;
  \<^verbatim>\<open>bns.eq\<close> then compares the new balance with the cached one.
\<close>

definition cachedBalance :: "engine \<Rightarrow> string \<Rightarrow> string" where
  "cachedBalance s tk = (case totalBalances s tk of None \<Rightarrow> ''0'' | Some b \<Rightarrow> b)"

definition updateBalance :: "string \<Rightarrow> string \<Rightarrow> engine \<Rightarrow> unit completion \<times> engine" where
  "updateBalance tk balance s =
     (let s1 = s\<lparr>totalBalances := (totalBalances s)(tk \<mapsto> cachedBalance s tk)\<rparr> in
      case bns_eq balance (cachedBalance s1 tk) of
        None \<Rightarrow> (Throw BnsError, s1)
      | Some same \<Rightarrow>
          (let s2 = (if \<not> same
                     then emit (OnBalanceChanged tk balance)
                            (localDataDirty (s1\<lparr>totalBalances := (totalBalances s1)(tk \<mapsto> balance)\<rparr>))
                     else s1);
               s3 = s2\<lparr>tokenCheckBalanceStatus := (tokenCheckBalanceStatus s2)(tk \<mapsto> 1)\<rparr>
           in (Return (), updateOnAddressesChecked s3)))"

section \<open>Block height polling\<close>

record chainInfo =
  head_block_num :: int

text \<open>
  \<^verbatim>\<open>checkBlockchainInnerLoop\<close>, given what \<^verbatim>\<open>multicastServers('getChainInfo')\<close>
  gives. Whatever is thrown is caught and logged.
\<close>

definition checkBlockchainInnerLoop :: "error + chainInfo \<Rightarrow> engine \<Rightarrow> engine" where
  "checkBlockchainInnerLoop info s =
     (case info of
        Inl e \<Rightarrow> s
      | Inr i \<Rightarrow>
          (let h = head_block_num i in
           if blockHeight s \<noteq> h
           then (let s1 = checkDroppedTransactionsThrottled s;
                     s2 = localDataDirty (s1\<lparr>blockHeight := h\<rparr>)
                 in emit (OnBlockHeightChanged (blockHeight s2)) s2)
           else s))"

section \<open>Transaction history\<close>

text \<open>\<^verbatim>\<open>processTransaction(transfer, actor)\<close>: the height returned and the engine after.\<close>

definition processTransaction ::
  "FioTransactionSuperNode \<Rightarrow> string \<Rightarrow> engine \<Rightarrow> int \<times> engine" where
  "processTransaction transfer actor s =
     (let currencyCode = ''FIO'' in
      if block_height transfer \<le> highestTxHeight s then (block_height transfer, s)
      else if action transfer \<noteq> ''trnsfiopubky'' \<and> action transfer \<noteq> ''transfer''
      then (block_height transfer, s)
      else
        (let s1 =
           (if action transfer = ''trnsfiopubky''
            then
              (let amount = show_int (transfer_amount transfer);
                   actorSender = payer transfer;
                   memo = ''Recipient Address: '' @ payee_public_key transfer;
                   ours = (payee_public_key transfer = publicKey s);
                   addresses = (if ours then [publicKey s] else []);
                   net = (if ours then (if actorSender = actor then ''0'' else amount)
                          else CHR ''-'' # amount)
               in addTransaction currencyCode
                    \<lparr>txid = transaction_id transfer,
                     date = DateParseSeconds (block_time transfer),
                     currencyCode = currencyCode,
                     txBlockHeight =
                       (if block_height transfer > 0 then block_height transfer else 0),
                     nativeAmount = net,
                     networkFee = show_int (fee_amount transfer),
                     parentNetworkFee = Some ''0'',
                     ourReceiveAddresses = addresses,
                     signedTx = [],
                     otherParams = None,
                     metadata = Some ([], memo)\<rparr> s)
            else s)
         in
         if action transfer = ''transfer''
         then
           (let fee = show_int (transfer_amount transfer);
                index = findTransaction currencyCode (transaction_id transfer) s1
            in if index > - 1 then (block_height transfer, s1)
               else (block_height transfer,
                     addTransaction currencyCode
                       \<lparr>txid = transaction_id transfer,
                        date = DateParseSeconds (block_time transfer),
                        currencyCode = currencyCode,
                        txBlockHeight =
                          (if block_height transfer > 0 then block_height transfer else 0),
                        nativeAmount = CHR ''-'' # fee,
                        networkFee = ''0'',
                        parentNetworkFee = None,
                        ourReceiveAddresses = [],
                        signedTx = [],
                        otherParams = None,
                        metadata = Some (''FIO fee'', transfer_notes transfer)\<rparr> s1))
         else (block_height transfer, s1)))"

text \<open>
  The \<^verbatim>\<open>for\<close> loop of \<^verbatim>\<open>checkTransactions\<close> over one sorted page, from index \<open>i\<close>:
  whether it set \<^verbatim>\<open>finish\<close>, the candidate \<^verbatim>\<open>newHighestTxHeight\<close>, the engine.
\<close>

fun transfersLoop ::
  "string \<Rightarrow> nat \<Rightarrow> FioTransactionSuperNode list \<Rightarrow> int \<Rightarrow> engine \<Rightarrow> bool \<times> int \<times> engine" where
  "transfersLoop actor i [] newHighestTxHeight s = (False, newHighestTxHeight, s)"
| "transfersLoop actor i (transfer # rest) newHighestTxHeight s =
     (case processTransaction transfer actor s of
        (blockNum, s1) \<Rightarrow>
          if blockNum > newHighestTxHeight
          then transfersLoop actor (Suc i) rest blockNum s1
          else if (blockNum = newHighestTxHeight \<and> i = 0) \<or> blockNum < highestTxHeight s1
          then (True, newHighestTxHeight, s1)
          else transfersLoop actor (Suc i) rest newHighestTxHeight s1)"

text \<open>
  \<^verbatim>\<open>transfers.sort((a, b) => b.block_height - a.block_height)\<close>: a stable sort,
  highest block first.
\<close>

definition sortTransfers :: "FioTransactionSuperNode list \<Rightarrow> FioTransactionSuperNode list" where
  "sortTransfers ts = sort_key (\<lambda>t. - block_height t) ts"

text \<open>
  The \<^verbatim>\<open>while (!finish)\<close> loop, from cursor \<open>pos\<close> with \<^verbatim>\<open>offset = 10\<close>. \<open>getTransfers
  pos\<close> is what \<^verbatim>\<open>multicastServers('history', {pos, offset: -10}, getTransfers)\<close>
  gives at that cursor: the \<^verbatim>\<open>transfers\<close> of the page, or \<open>Inl\<close> when the call throws
  (a response without \<^verbatim>\<open>transfers\<close> makes \<^verbatim>\<open>.sort\<close> throw as well).
\<close>

function pagingLoop ::
  "(int \<Rightarrow> error + FioTransactionSuperNode list) \<Rightarrow> string \<Rightarrow> int \<Rightarrow> int \<Rightarrow> engine
     \<Rightarrow> int completion \<times> engine" where
  "pagingLoop getTransfers actor pos newHighestTxHeight s =
     (if pos < 0 then (Return newHighestTxHeight, s)
      else
        (let s0 = s\<lparr>getTransfersRequests := getTransfersRequests s @ [pos]\<rparr> in
         case getTransfers pos of
           Inl e \<Rightarrow> (Throw e, s0)
         | Inr page \<Rightarrow>
             (let transfers = sortTransfers page in
              if transfers = [] then (Return newHighestTxHeight, s0)
              else
                (case transfersLoop actor 0 transfers newHighestTxHeight s0 of
                   (finish, candidate, s1) \<Rightarrow>
                     if finish then (Return candidate, s1)
                     else pagingLoop getTransfers actor (pos - 10) candidate s1))))"
  by pat_completeness auto
termination
  by (relation "measure (\<lambda>(g, a, pos, n, s). nat (pos + 10))") auto

declare pagingLoop.simps [simp del]

text \<open>
  \<^verbatim>\<open>checkTransactions\<close>. \<open>lastActionObject\<close> is what the first history call gives: the
  \<^verbatim>\<open>account_action_seq\<close> of the actions returned (none when \<^verbatim>\<open>actions\<close> is missing or
  empty), or \<open>Inl\<close> when it throws, which is caught. \<open>actor\<close> is what the SDK's
  \<^verbatim>\<open>getActor\<close> derives from the public key.
\<close>

definition checkTransactions ::
  "error + int list \<Rightarrow> (int \<Rightarrow> error + FioTransactionSuperNode list) \<Rightarrow> string \<Rightarrow> engine
     \<Rightarrow> bool completion \<times> engine" where
  "checkTransactions lastActionObject getTransfers actor s =
     (let newHighestTxHeight = highestTxHeight s;
          lastActionSeqNumber =
            (case lastActionObject of
               Inl e \<Rightarrow> 0
             | Inr [] \<Rightarrow> 0
             | Inr (seq # _) \<Rightarrow> seq)
      in if lastActionSeqNumber = 0 then (Return True, s)
         else
           (case pagingLoop getTransfers actor lastActionSeqNumber newHighestTxHeight s of
              (Throw e, s1) \<Rightarrow> (Throw e, s1)
            | (Return candidate, s1) \<Rightarrow>
                if candidate > highestTxHeight s1
                then (Return True, localDataDirty (s1\<lparr>highestTxHeight := candidate\<rparr>))
                else (Return True, s1)))"

text \<open>\<^verbatim>\<open>checkTransactionsInnerLoop\<close>: one history-sync cycle of the scheduler.\<close>

definition checkTransactionsInnerLoop ::
  "error + int list \<Rightarrow> (int \<Rightarrow> error + FioTransactionSuperNode list) \<Rightarrow> string \<Rightarrow> engine
     \<Rightarrow> engine" where
  "checkTransactionsInnerLoop lastActionObject getTransfers actor s =
     (case checkTransactions lastActionObject getTransfers actor s of
        (Throw e, s1) \<Rightarrow> s1
      | (Return transactions, s1) \<Rightarrow>
          (let s2 = (if transactions
                     then updateOnAddressesChecked
                            (s1\<lparr>tokenCheckTransactionsStatus :=
                                  (tokenCheckTransactionsStatus s1)(''FIO'' \<mapsto> 1)\<rparr>)
                     else s1)
           in if transactionsChangedArray s2 \<noteq> []
              then (emit (OnTransactionsChanged (transactionsChangedArray s2)) s2)
                     \<lparr>transactionsChangedArray := []\<rparr>
              else s2))"

text \<open>A sequence of history-sync cycles, each with what the history node answers in it.\<close>

fun syncCycles ::
  "((error + int list) \<times> (int \<Rightarrow> error + FioTransactionSuperNode list)) list \<Rightarrow> string
     \<Rightarrow> engine \<Rightarrow> engine" where
  "syncCycles [] actor s = s"
| "syncCycles ((lastActionObject, getTransfers) # cycles) actor s =
     syncCycles cycles actor (checkTransactionsInnerLoop lastActionObject getTransfers actor s)"

section \<open>Account polling\<close>

record balanceResponse =
  balance :: int

text \<open>The response of \<^verbatim>\<open>getFioNames\<close>; \<^verbatim>\<open>is_public\<close> is a number, read with \<^verbatim>\<open>!!\<close>.\<close>

datatype remoteFioAddress = RemoteFioAddress (fio_address: string) (address_expiration: string)

datatype remoteFioDomain =
  RemoteFioDomain (fio_domain: string) (domain_expiration: string) (is_public: int)

record fioNames =
  fio_addresses :: "remoteFioAddress list"
  fio_domains :: "remoteFioDomain list"

text \<open>\<^verbatim>\<open>find\<close> followed by an assignment to the object found: the first match is updated.\<close>

fun updateFirst :: "('a \<Rightarrow> bool) \<Rightarrow> ('a \<Rightarrow> 'a) \<Rightarrow> 'a list \<Rightarrow> 'a list" where
  "updateFirst P f [] = []"
| "updateFirst P f (x # xs) = (if P x then f x # xs else x # updateFirst P f xs)"

definition mergeFioAddress ::
  "fioAddress list \<times> bool \<Rightarrow> remoteFioAddress \<Rightarrow> fioAddress list \<times> bool" where
  "mergeFioAddress st r =
     (case st of
        (addresses, isChanged) \<Rightarrow>
          (case find (\<lambda>a. name a = fio_address r) addresses of
             Some existed \<Rightarrow>
               if expiration existed \<noteq> address_expiration r
               then (updateFirst (\<lambda>a. name a = fio_address r)
                       (\<lambda>a. a\<lparr>expiration := address_expiration r\<rparr>) addresses, True)
               else (addresses, isChanged)
           | None \<Rightarrow>
               (addresses @ [\<lparr>name = fio_address r, expiration = address_expiration r\<rparr>],
                True)))"

definition mergeFioDomain ::
  "fioDomain list \<times> bool \<Rightarrow> remoteFioDomain \<Rightarrow> fioDomain list \<times> bool" where
  "mergeFioDomain st r =
     (case st of
        (domains, isChanged) \<Rightarrow>
          (case find (\<lambda>d. name d = fio_domain r) domains of
             Some existed \<Rightarrow>
               (let c1 = (expiration existed \<noteq> domain_expiration r);
                    c2 = (isPublic existed \<noteq> (is_public r \<noteq> 0))
                in (updateFirst (\<lambda>d. name d = fio_domain r)
                      (\<lambda>d. (if c2 then (\<lambda>x. x\<lparr>isPublic := (is_public r \<noteq> 0)\<rparr>) else (\<lambda>x. x))
                              (if c1 then d\<lparr>expiration := domain_expiration r\<rparr> else d))
                      domains,
                    isChanged \<or> c1 \<or> c2))
           | None \<Rightarrow>
               (domains @ [\<lparr>name = fio_domain r, expiration = domain_expiration r,
                            isPublic = (is_public r \<noteq> 0)\<rparr>],
                True)))"

text \<open>
  \<^verbatim>\<open>checkAccountInnerLoop\<close>, given what \<^verbatim>\<open>multicastServers('getFioBalance')\<close> and
  \<^verbatim>\<open>multicastServers('getFioNames')\<close> give. The currency code is that of the currency
  info, \<^verbatim>\<open>'FIO'\<close>. A failed balance query is caught and the balance taken as \<^verbatim>\<open>'0'\<close>; a
  failed names query is caught and logged.
\<close>

definition checkAccountInnerLoop ::
  "error + balanceResponse \<Rightarrow> error + fioNames \<Rightarrow> engine \<Rightarrow> unit completion \<times> engine" where
  "checkAccountInnerLoop balanceResult namesResult s =
     (let currencyCode = ''FIO'';
          s0 = s\<lparr>totalBalances := (totalBalances s)(currencyCode \<mapsto> cachedBalance s currencyCode)\<rparr>;
          amount = (case balanceResult of
                      Inr r \<Rightarrow> show_int (balance r)
                    | Inl e \<Rightarrow> ''0'')
      in case updateBalance currencyCode amount s0 of
           (Throw e, s1) \<Rightarrow> (Throw e, s1)
         | (Return u, s1) \<Rightarrow>
             (Return (),
              (case namesResult of
                 Inl e \<Rightarrow> s1
               | Inr result \<Rightarrow>
                   (case foldl mergeFioAddress (fioAddresses s1, False) (fio_addresses result) of
                      (addresses, c1) \<Rightarrow>
                        (case foldl mergeFioDomain (fioDomains s1, c1) (fio_domains result) of
                           (domains, isChanged) \<Rightarrow>
                             (let s2 = s1\<lparr>fioAddresses := addresses, fioDomains := domains\<rparr>
                              in if isChanged then localDataDirty s2 else s2))))))"

section \<open>Resync\<close>



section \<open>Spending\<close>

record EdgeSpendTarget =
  publicAddress :: string
  targetNativeAmount :: string

record feeResponse =
  fee :: int

text \<open>
  \<^verbatim>\<open>makeSpend\<close>. \<open>superMakeSpend\<close> is what \<^verbatim>\<open>super.makeSpend(edgeSpendInfoIn)\<close> gives
  (the base class is not among the sources): the spend targets of \<^verbatim>\<open>edgeSpendInfo\<close>,
  \<^verbatim>\<open>nativeBalance\<close> and \<^verbatim>\<open>currencyCode\<close>, or what it throws. \<open>feeResult\<close> is what
  \<^verbatim>\<open>multicastServers('getFee', ...)\<close> gives.
\<close>

definition makeSpend ::
  "error + (EdgeSpendTarget list \<times> string \<times> string) \<Rightarrow> error + feeResponse \<Rightarrow> engine
     \<Rightarrow> error + EdgeTransaction" where
  "makeSpend superMakeSpend feeResult s =
     (case superMakeSpend of
        Inl e \<Rightarrow> Inl e
      | Inr (spendTargets, nativeBalance, code) \<Rightarrow>
          (case feeResult of
             Inl e \<Rightarrow> Inl e
           | Inr response \<Rightarrow>
               (case spendTargets of
                  [] \<Rightarrow> Inl TypeError
                | target # _ \<Rightarrow>
                    (let feeString = show_int (fee response);
                         quantity = targetNativeAmount target
                     in case bns_add quantity feeString of
                          None \<Rightarrow> Inl BnsError
                        | Some summed \<Rightarrow>
                            (case bns_gt summed nativeBalance of
                               None \<Rightarrow> Inl BnsError
                             | Some exceeds \<Rightarrow>
                                 if exceeds then Inl InsufficientFundsError
                                 else
                                   (case bns_sub (CHR ''-'' # quantity) feeString of
                                      None \<Rightarrow> Inl BnsError
                                    | Some netAmount \<Rightarrow>
                                        Inr \<lparr>txid = [],
                                             date = Seconds 0,
                                             currencyCode = code,
                                             txBlockHeight = 0,
                                             nativeAmount = netAmount,
                                             networkFee = feeString,
                                             parentNetworkFee = None,
                                             ourReceiveAddresses = [],
                                             signedTx = ''0'',
                                             otherParams =
                                               Some [\<lparr>account = ''fio.token'',
                                                      actionName = ''trnsfiopubky'',
                                                      authorizationActor = [],
                                                      authorizationPermission = ''active'',
                                                      dataFrom = publicKey s,
                                                      dataTo = publicAddress target,
                                                      dataQuantity = quantity,
                                                      dataMemo = []\<rparr>],
                                             metadata = None\<rparr>))))))"


record transferTokensParams =
  payeeFioPublicKey :: string
  amount :: string
  maxFee :: string

record transferResponse =
  response_transaction_id :: string
  block_num :: int

text \<open>The parameters that \<^verbatim>\<open>broadcastTx\<close> hands to \<^verbatim>\<open>multicastServers('transferTokens', ...)\<close>.\<close>

definition transferTokensRequest :: "EdgeTransaction \<Rightarrow> error + transferTokensParams" where
  "transferTokensRequest edgeTransaction =
     (case otherParams edgeTransaction of
        None \<Rightarrow> Inl (Error ''transactionJson not set. FIO transferTokens requires publicAddress'')
      | Some actions \<Rightarrow>
          (case actions of
             [] \<Rightarrow> Inl TypeError
           | a # _ \<Rightarrow>
               (case bns_add (nativeAmount edgeTransaction) (networkFee edgeTransaction) of
                  None \<Rightarrow> Inl BnsError
                | Some summed \<Rightarrow>
                    (case bns_abs summed of
                       None \<Rightarrow> Inl BnsError
                     | Some amt \<Rightarrow>
                         Inr \<lparr>payeeFioPublicKey = dataTo a, amount = amt,
                              maxFee = networkFee edgeTransaction\<rparr>))))"

text \<open>
  \<^verbatim>\<open>broadcastTx\<close>. \<open>transferTokens\<close> is what the waterfall gives for the parameters
  submitted, \<open>now\<close> is \<^verbatim>\<open>Date.now() / 1000\<close>.
\<close>

definition broadcastTx ::
  "(transferTokensParams \<Rightarrow> error + transferResponse) \<Rightarrow> rat \<Rightarrow> EdgeTransaction
     \<Rightarrow> error + EdgeTransaction" where
  "broadcastTx transferTokens now edgeTransaction =
     (case transferTokensRequest edgeTransaction of
        Inl e \<Rightarrow> Inl e
      | Inr params \<Rightarrow>
          (case transferTokens params of
             Inl e \<Rightarrow> Inl e
           | Inr transfer \<Rightarrow>
               Inr (edgeTransaction\<lparr>txid := response_transaction_id transfer,
                                    date := Seconds now,
                                    txBlockHeight := block_num transfer\<rparr>)))"

section \<open>Engines and history nodes for the scenarios\<close>

text \<open>The engine as constructed for a wallet: nothing cached, nothing recorded.\<close>

definition newEngine :: "string \<Rightarrow> engine" where
  "newEngine key =
     \<lparr>publicKey = key, blockHeight = 0, totalBalances = Map.empty, highestTxHeight = 0,
      feeTransactions = [], fioAddresses = [], fioDomains = [], walletLocalDataDirty = False,
      transactionList = Map.empty, transactionsChangedArray = [],
      tokenCheckBalanceStatus = Map.empty, tokenCheckTransactionsStatus = Map.empty,
      callbacksLog = [], baseCalls = [], getTransfersRequests = []\<rparr>"

text \<open>A wallet in use, for the scenarios: watermark and block height 100, balance \<^verbatim>\<open>"100"\<close>.\<close>

definition exampleEngine :: engine where
  "exampleEngine =
     (newEngine ''FIO7owner'')
       \<lparr>blockHeight := 100,
        totalBalances := [''FIO'' \<mapsto> ''100''],
        highestTxHeight := 100,
        fioAddresses := [\<lparr>name = ''alice@edge'', expiration = ''2021-03-01''\<rparr>],
        fioDomains := [\<lparr>name = ''edge'', expiration = ''2021-03-01'', isPublic = False\<rparr>]\<rparr>"

text \<open>What the SDK throws when an endpoint cannot be reached, and when the service rejects.\<close>

definition transportFailure :: apiError where
  "transportFailure =
     \<lparr>errorCode = None, message = ''Network request failed'', json = [], list = []\<rparr>"

definition notFoundRejection :: apiError where
  "notFoundRejection =
     \<lparr>errorCode = Some 404, message = ''Not Found'',
      json = ''{message: Public address not found}'', list = [(''fio_public_key'', ''Invalid'')]\<rparr>"

text \<open>The polling of the block height over several cycles: the engine after each poll.\<close>

fun heightPolls :: "(error + chainInfo) list \<Rightarrow> engine \<Rightarrow> engine list" where
  "heightPolls [] s = []"
| "heightPolls (info # infos) s =
     checkBlockchainInnerLoop info s # heightPolls infos (checkBlockchainInnerLoop info s)"

text \<open>The heads observed by the polls that succeeded.\<close>

fun observedHeads :: "(error + chainInfo) list \<Rightarrow> int list" where
  "observedHeads [] = []"
| "observedHeads (Inl e # infos) = observedHeads infos"
| "observedHeads (Inr i # infos) = head_block_num i # observedHeads infos"

text \<open>A record of the history node for the scenarios: height, action kind, transaction id.\<close>

definition exampleTransfer :: "int \<Rightarrow> string \<Rightarrow> string \<Rightarrow> FioTransactionSuperNode" where
  "exampleTransfer h kind tid =
     \<lparr>block_height = h, block_time = ''2020-06-01T10:00:00'', payer = ''actor2'',
      payee = ''actor1'', payee_public_key = ''FIO7owner'', transfer_amount = 5000000000,
      fee_amount = 2000000000, transaction_total = 7000000000, transfer_notes = [],
      action = kind, tpid = [], transaction_id = tid\<rparr>"

text \<open>
  The history node of the spec's scenario: heights 150, 140, 130 at cursor 20, heights
  120, 110, 90 at cursor 10, and one more page at cursor 0.
\<close>

definition scenarioPages :: "int \<Rightarrow> error + FioTransactionSuperNode list" where
  "scenarioPages pos =
     (if pos = 20
      then Inr [exampleTransfer 150 ''trnsfiopubky'' ''tx150'',
                exampleTransfer 140 ''trnsfiopubky'' ''tx140'',
                exampleTransfer 130 ''trnsfiopubky'' ''tx130'']
      else if pos = 10
      then Inr [exampleTransfer 120 ''trnsfiopubky'' ''tx120'',
                exampleTransfer 110 ''trnsfiopubky'' ''tx110'',
                exampleTransfer 90 ''trnsfiopubky'' ''tx90'']
      else if pos = 0
      then Inr [exampleTransfer 80 ''trnsfiopubky'' ''tx80'']
      else Inl AllEndpointsFailed)"

text \<open>
  A page with the two records of one transaction: its fee (\<^verbatim>\<open>transfer\<close>) and its
  ownership-transfer notification (\<^verbatim>\<open>trnsfiopubky\<close>), under the same transaction id.
\<close>

definition sameIdPage :: "int \<Rightarrow> error + FioTransactionSuperNode list" where
  "sameIdPage pos =
     Inr [exampleTransfer 150 ''transfer'' ''tx1'', exampleTransfer 150 ''trnsfiopubky'' ''tx1'']"

text \<open>
  A recorded transaction that stands for a fee: \<open>processTransaction\<close> names it
  \<^verbatim>\<open>'FIO fee'\<close>. \<open>feesFreshFrom seen txs\<close>: going through \<open>txs\<close> in the order recorded,
  no fee transaction has an id met before (in \<open>seen\<close> or earlier in \<open>txs\<close>).
\<close>

definition isFee :: "EdgeTransaction \<Rightarrow> bool" where
  "isFee tx = (case metadata tx of None \<Rightarrow> False | Some (n, m) \<Rightarrow> n = ''FIO fee'')"

fun feesFreshFrom :: "string list \<Rightarrow> EdgeTransaction list \<Rightarrow> bool" where
  "feesFreshFrom seen [] = True"
| "feesFreshFrom seen (tx # txs) =
     ((isFee tx \<longrightarrow> txid tx \<notin> set seen) \<and> feesFreshFrom (txid tx # seen) txs)"

definition feesFresh :: "engine \<Rightarrow> bool" where
  "feesFresh s = feesFreshFrom [] (transactionsOf s ''FIO'')"

section \<open>Decimal strings: printing and parsing agree\<close>

lemma digit_cases: "n < 10 \<Longrightarrow> n \<in> {0, 1, 2, 3, 4, 5, 6, 7, 8, 9 :: nat}"
  by simp arith

lemma digit_char_props:
  assumes "n < 10"
  shows "is_digit (digit_char n)" and "digit_val (digit_char n) = n"
  using digit_cases [OF assms]
  by (auto simp: digit_char_def is_digit_def digit_val_def)

lemma is_digit_not_sep: "is_digit c \<Longrightarrow> c \<noteq> CHR ''.'' \<and> c \<noteq> CHR ''-''"
  by (auto simp: is_digit_def)

lemma show_nat_digits: "list_all is_digit (show_nat n)"
proof (induction n rule: show_nat.induct)
  case (1 n)
  show ?case
  proof (cases "n < 10")
    case True
    then show ?thesis by (simp add: show_nat.simps [of n] digit_char_props)
  next
    case False
    with 1 show ?thesis by (simp add: show_nat.simps [of n] digit_char_props)
  qed
qed

lemma show_nat_nonempty: "show_nat n \<noteq> []"
  by (simp add: show_nat.simps [of n])

lemma digits_val_snoc: "digits_val (xs @ [c]) = 10 * digits_val xs + digit_val c"
  by (simp add: digits_val_def)

lemma digits_val_show_nat: "digits_val (show_nat n) = n"
proof (induction n rule: show_nat.induct)
  case (1 n)
  show ?case
  proof (cases "n < 10")
    case True
    then show ?thesis
      using digits_val_snoc [of "[]" "digit_char n"]
      by (simp add: show_nat.simps [of n] digit_char_props digits_val_def)
  next
    case False
    with 1 show ?thesis
      by (simp add: show_nat.simps [of n] digits_val_snoc digit_char_props)
  qed
qed

lemma pad_digits_length: "length (pad_digits k n) = k"
  by (induction k arbitrary: n) simp_all

lemma pad_digits_digits: "list_all is_digit (pad_digits k n)"
  by (induction k arbitrary: n) (simp_all add: digit_char_props)

lemma digits_val_append_pad:
  "digits_val (xs @ pad_digits k n) = digits_val xs * 10 ^ k + n mod 10 ^ k"
proof (induction k arbitrary: n)
  case 0
  then show ?case by simp
next
  case (Suc k)
  have "digits_val (xs @ pad_digits (Suc k) n)
        = 10 * digits_val (xs @ pad_digits k (n div 10)) + n mod 10"
    using digits_val_snoc [of "xs @ pad_digits k (n div 10)" "digit_char (n mod 10)"]
    by (simp add: digit_char_props)
  also have "\<dots> = 10 * (digits_val xs * 10 ^ k + (n div 10) mod 10 ^ k) + n mod 10"
    by (simp add: Suc.IH)
  also have "\<dots> = digits_val xs * 10 ^ Suc k + n mod 10 ^ Suc k"
    by (simp add: mod_mult2_eq algebra_simps)
  finally show ?case .
qed

lemma takeWhile_digits_point:
  "list_all is_digit xs \<Longrightarrow> takeWhile (\<lambda>c. c \<noteq> CHR ''.'') (xs @ CHR ''.'' # ys) = xs"
  by (induction xs) (auto dest: is_digit_not_sep)

lemma dropWhile_digits_point:
  "list_all is_digit xs \<Longrightarrow> dropWhile (\<lambda>c. c \<noteq> CHR ''.'') (xs @ CHR ''.'' # ys) = CHR ''.'' # ys"
  by (induction xs) (auto dest: is_digit_not_sep)

lemma takeWhile_all_digits:
  "list_all is_digit xs \<Longrightarrow> takeWhile (\<lambda>c. c \<noteq> CHR ''.'') xs = xs"
  by (induction xs) (auto dest: is_digit_not_sep)

lemma dropWhile_all_digits:
  "list_all is_digit xs \<Longrightarrow> dropWhile (\<lambda>c. c \<noteq> CHR ''.'') xs = []"
  by (induction xs) (auto dest: is_digit_not_sep)

lemma parse_unsigned_show:
  "parse_unsigned (show_nat (a div 10 ^ k) @ (if k = 0 then [] else CHR ''.'' # pad_digits k (a mod 10 ^ k)))
   = Some (Decimal (int a) k)"
proof (cases "k = 0")
  case True
  then show ?thesis
    by (simp add: parse_unsigned_def takeWhile_all_digits dropWhile_all_digits show_nat_digits
        is_digits_def show_nat_nonempty digits_val_show_nat)
next
  case False
  then have "pad_digits k (a mod 10 ^ k) \<noteq> []"
    using pad_digits_length [of k "a mod 10 ^ k"] by auto
  moreover have "digits_val (show_nat (a div 10 ^ k) @ pad_digits k (a mod 10 ^ k)) = a"
    by (simp add: digits_val_append_pad digits_val_show_nat div_mult_mod_eq)
  ultimately show ?thesis using False
    by (simp add: parse_unsigned_def takeWhile_digits_point dropWhile_digits_point
        show_nat_digits is_digits_def show_nat_nonempty pad_digits_digits pad_digits_length)
qed

lemma parse_unsigned_show_nat: "parse_unsigned (show_nat n) = Some (Decimal (int n) 0)"
  using parse_unsigned_show [of n 0] by simp

lemma parse_unsigned_not_minus:
  assumes "parse_unsigned s = Some u"
  shows "\<exists>c r. s = c # r \<and> c \<noteq> CHR ''-''"
proof -
  have d: "is_digits (takeWhile (\<lambda>c. c \<noteq> CHR ''.'') s)"
    using assms by (auto simp: parse_unsigned_def Let_def split: if_splits)
  then obtain c r where s: "s = c # r"
    by (cases s) (auto simp: is_digits_def)
  with d have "is_digit c"
    by (auto simp: is_digits_def split: if_splits)
  with s show ?thesis by (auto dest: is_digit_not_sep)
qed

lemma parse_decimal_unsigned:
  "parse_unsigned s = Some u \<Longrightarrow> parse_decimal s = Some u"
  using parse_unsigned_not_minus [of s u] by (auto simp: parse_decimal_def)


lemma parse_decimal_minus:
  "parse_decimal (CHR ''-'' # s) = map_option dneg (parse_unsigned s)"
  by (simp add: parse_decimal_def)

lemma parse_show_int: "parse_decimal (show_int i) = Some (Decimal i 0)"
proof (cases "i < 0")
  case True
  then show ?thesis
    by (simp add: show_int_def parse_decimal_minus parse_unsigned_show_nat dneg_def)
next
  case False
  then show ?thesis
    using parse_decimal_unsigned [OF parse_unsigned_show_nat, of "nat i"]
    by (simp add: show_int_def)
qed

lemma parse_show_decimal: "parse_decimal (show_decimal d) = Some (dnorm (mant d) (scale d))"
proof -
  obtain m k where mk: "dnorm (mant d) (scale d) = Decimal m k"
    by (cases "dnorm (mant d) (scale d)") auto
  let ?body = "show_nat (nat \<bar>m\<bar> div 10 ^ k) @
          (if k = 0 then [] else CHR ''.'' # pad_digits k (nat \<bar>m\<bar> mod 10 ^ k))"
  have body: "parse_unsigned ?body = Some (Decimal (int (nat \<bar>m\<bar>)) k)"
    by (rule parse_unsigned_show)
  show ?thesis
  proof (cases "m < 0")
    case True
    then have "show_decimal d = CHR ''-'' # ?body"
      by (simp add: show_decimal_def mk)
    then show ?thesis using body True by (simp add: parse_decimal_minus mk dneg_def)
  next
    case False
    then have "show_decimal d = ?body"
      by (simp add: show_decimal_def mk)
    then show ?thesis
      using parse_decimal_unsigned [OF body] False by (simp add: mk)
  qed
qed

lemma dval_dnorm: "dval (dnorm m k) = dval (Decimal m k)"
proof (induction k arbitrary: m)
  case 0
  then show ?case by simp
next
  case (Suc k)
  show ?case
  proof (cases "m mod 10 = 0")
    case True
    then obtain q where q: "m = 10 * q" by auto
    have "dval (dnorm m (Suc k)) = dval (dnorm q k)"
      by (simp add: q)
    also have "\<dots> = dval (Decimal q k)"
      by (rule Suc.IH)
    also have "\<dots> = dval (Decimal m (Suc k))"
      by (simp add: q dval_def)
    finally show ?thesis .
  next
    case False
    then show ?thesis by simp
  qed
qed

lemma dval_parse_show:
  "parse_decimal (show_decimal d) = Some d' \<Longrightarrow> dval d' = dval d"
  using dval_dnorm [of "mant d" "scale d"] by (cases d) (simp add: parse_show_decimal)

lemma dval_dadd: "dval (dadd a b) = dval a + dval b"
  by (simp add: dval_def dadd_def power_add field_simps)

lemma dval_dsub: "dval (dsub a b) = dval a - dval b"
  by (simp add: dval_def dsub_def power_add field_simps)


lemma dval_dneg: "dval (dneg a) = - dval a"
  by (simp add: dval_def dneg_def)

lemma dval_int: "dval (Decimal i 0) = of_int i"
  by (simp add: dval_def)

lemma dless_dval: "dless a b \<longleftrightarrow> dval a < dval b"
proof -
  have "dval a < dval b \<longleftrightarrow>
        (of_int (mant a * 10 ^ scale b) :: rat) < of_int (mant b * 10 ^ scale a)"
    by (simp add: dval_def field_simps)
  then show ?thesis
    by (simp only: of_int_less_iff dless_def)
qed

lemma deq_dval: "deq a b \<longleftrightarrow> dval a = dval b"
proof -
  have "dval a = dval b \<longleftrightarrow>
        (of_int (mant a * 10 ^ scale b) :: rat) = of_int (mant b * 10 ^ scale a)"
    by (simp add: dval_def field_simps)
  then show ?thesis
    by (simp only: of_int_eq_iff deq_def)
qed

lemmas bns_eval =
  bns_add_def bns_sub_def bns_abs_def bns_gt_def bns_eq_def dadd_def dsub_def dabs_def dneg_def
  dless_def deq_def show_decimal_def show_int_def show_nat.simps digit_char_def
  parse_decimal_def parse_unsigned_def is_digits_def is_digit_def digits_val_def digit_val_def

section \<open>Spending: the balance check\<close>

lemma bns_add_parsed:
  "parse_decimal x = Some a \<Longrightarrow> parse_decimal y = Some b \<Longrightarrow>
   bns_add x y = Some (show_decimal (dadd a b))"
  by (simp add: bns_add_def)

lemma bns_sub_parsed:
  "parse_decimal x = Some a \<Longrightarrow> parse_decimal y = Some b \<Longrightarrow>
   bns_sub x y = Some (show_decimal (dsub a b))"
  by (simp add: bns_sub_def)

lemma dval_collapse: "dval (dnorm (mant d) (scale d)) = dval d"
  by (simp add: dval_dnorm)

lemma makeSpend_steps:
  assumes q: "parse_unsigned (targetNativeAmount target) = Some q"
      and b: "parse_decimal nativeBalance = Some b"
  shows "makeSpend (Inr (target # targets, nativeBalance, code)) (Inr response) s =
         (if dval b < dval q + of_int (fee response) then Inl InsufficientFundsError
          else Inr \<lparr>txid = [], date = Seconds 0, currencyCode = code, txBlockHeight = 0,
                 nativeAmount = show_decimal (dsub (dneg q) (Decimal (fee response) 0)),
                 networkFee = show_int (fee response),
                 parentNetworkFee = None, ourReceiveAddresses = [], signedTx = ''0'',
                 otherParams =
                   Some [\<lparr>account = ''fio.token'', actionName = ''trnsfiopubky'',
                          authorizationActor = [], authorizationPermission = ''active'',
                          dataFrom = publicKey s, dataTo = publicAddress target,
                          dataQuantity = targetNativeAmount target, dataMemo = []\<rparr>],
                 metadata = None\<rparr>)"
proof -
  let ?F = "Decimal (fee response) 0"
  let ?quantity = "targetNativeAmount target"
  have add: "bns_add ?quantity (show_int (fee response)) = Some (show_decimal (dadd q ?F))"
    using parse_decimal_unsigned [OF q] by (simp add: bns_add_parsed parse_show_int)
  have gt: "bns_gt (show_decimal (dadd q ?F)) nativeBalance
            = Some (dval b < dval q + of_int (fee response))"
    by (simp add: bns_gt_def parse_show_decimal b dless_dval dval_collapse dval_dadd dval_int)
  have sub: "bns_sub (CHR ''-'' # ?quantity) (show_int (fee response))
             = Some (show_decimal (dsub (dneg q) ?F))"
    by (simp add: bns_sub_parsed parse_decimal_minus q parse_show_int)
  show ?thesis
    by (simp add: makeSpend_def add gt sub)
qed

text \<open>
  Claim C3. Given what the base class hands back (the spend targets, the cached balance
  \<open>nativeBalance\<close>, the currency code) and the fee fetched, for a requested amount that is an
  unsigned decimal numeral and a balance that is a decimal numeral: \<open>makeSpend\<close> throws
  \<open>InsufficientFundsError\<close> if and only if amount plus fee exceeds the balance; otherwise it
  returns a transaction whose \<open>nativeAmount\<close> denotes minus the sum of amount and fee and whose
  \<open>networkFee\<close> is the fee.
\<close>

theorem makeSpend_insufficient_funds_iff:
  assumes q: "parse_unsigned (targetNativeAmount target) = Some q"
      and b: "parse_decimal nativeBalance = Some b"
  shows "(makeSpend (Inr (target # targets, nativeBalance, code)) (Inr response) s
            = Inl InsufficientFundsError
          \<longleftrightarrow> dval b < dval q + of_int (fee response))
       \<and> (\<not> dval b < dval q + of_int (fee response) \<longrightarrow>
            (\<exists>tx d. makeSpend (Inr (target # targets, nativeBalance, code)) (Inr response) s = Inr tx
                  \<and> networkFee tx = show_int (fee response)
                  \<and> parse_decimal (nativeAmount tx) = Some d
                  \<and> dval d = - (dval q + of_int (fee response))))"
proof -
  have "dval (dnorm (mant (dsub (dneg q) (Decimal (fee response) 0)))
               (scale (dsub (dneg q) (Decimal (fee response) 0))))
        = - (dval q + of_int (fee response))"
    by (simp add: dval_collapse dval_dsub dval_dneg dval_int)
  then show ?thesis
    by (simp add: makeSpend_steps [OF q b] parse_show_decimal)
qed

text \<open>
  The scenario of the spec: balance \<^verbatim>\<open>"100"\<close>, amount \<^verbatim>\<open>"90"\<close>; fee \<^verbatim>\<open>20\<close> fails, fee
  \<^verbatim>\<open>5\<close> gives \<^verbatim>\<open>nativeAmount = "-95"\<close>.
\<close>

theorem makeSpend_insufficient_funds_witness:
  "parse_unsigned ''90'' = Some (Decimal 90 0) \<and> parse_decimal ''100'' = Some (Decimal 100 0)
   \<and> makeSpend (Inr ([\<lparr>publicAddress = ''FIO5payee'', targetNativeAmount = ''90''\<rparr>], ''100'', ''FIO''))
        (Inr \<lparr>fee = 20\<rparr>) (newEngine ''FIO7owner'') = Inl InsufficientFundsError
   \<and> (\<exists>tx. makeSpend (Inr ([\<lparr>publicAddress = ''FIO5payee'', targetNativeAmount = ''90''\<rparr>], ''100'', ''FIO''))
        (Inr \<lparr>fee = 5\<rparr>) (newEngine ''FIO7owner'') = Inr tx
        \<and> nativeAmount tx = ''-95'' \<and> networkFee tx = ''5'')"
proof -
  have q: "parse_unsigned (targetNativeAmount \<lparr>publicAddress = ''FIO5payee'', targetNativeAmount = ''90''\<rparr>)
           = Some (Decimal 90 0)"
    by (simp add: bns_eval)
  have b: "parse_decimal ''100'' = Some (Decimal 100 0)"
    by (simp add: bns_eval)
  have "makeSpend (Inr ([\<lparr>publicAddress = ''FIO5payee'', targetNativeAmount = ''90''\<rparr>], ''100'', ''FIO''))
          (Inr \<lparr>fee = 20\<rparr>) (newEngine ''FIO7owner'') = Inl InsufficientFundsError"
    using makeSpend_insufficient_funds_iff [OF q b, of "[]" "''FIO''" "\<lparr>fee = 20\<rparr>" "newEngine ''FIO7owner''"]
    by (simp add: dval_def)
  moreover have "\<exists>tx. makeSpend (Inr ([\<lparr>publicAddress = ''FIO5payee'', targetNativeAmount = ''90''\<rparr>], ''100'', ''FIO''))
        (Inr \<lparr>fee = 5\<rparr>) (newEngine ''FIO7owner'') = Inr tx
        \<and> nativeAmount tx = ''-95'' \<and> networkFee tx = ''5''"
    by (simp add: makeSpend_def bns_eval Let_def)
  ultimately show ?thesis using q b by simp
qed

section \<open>Spending: from build to broadcast\<close>








section \<open>The cached balance\<close>

lemma updateBalance_steps:
  assumes a: "parse_decimal newBalance = Some a"
      and c: "parse_decimal (cachedBalance s tk) = Some c"
  shows "\<exists>s'. updateBalance tk newBalance s = (Return (), s')
     \<and> callbacksLog s' =
         callbacksLog s @ (if dval a = dval c then [] else [OnBalanceChanged tk newBalance])
     \<and> walletLocalDataDirty s' = (walletLocalDataDirty s \<or> dval a \<noteq> dval c)
     \<and> totalBalances s' tk = Some (if dval a = dval c then cachedBalance s tk else newBalance)"
proof -
  let ?s1 = "s\<lparr>totalBalances := (totalBalances s)(tk \<mapsto> cachedBalance s tk)\<rparr>"
  have cb: "cachedBalance ?s1 tk = cachedBalance s tk"
    by (simp add: cachedBalance_def)
  have eq: "bns_eq newBalance (cachedBalance ?s1 tk) = Some (dval a = dval c)"
    by (simp add: cb bns_eq_def a c deq_dval)
  show ?thesis
    unfolding updateBalance_def Let_def eq
    by (simp add: emit_def localDataDirty_def updateOnAddressesChecked_def)
qed

text \<open>
  Claim C5. For a new balance and a cached balance that are decimal numerals (an undefined
  cached balance counts as \<^verbatim>\<open>'0'\<close>), \<open>updateBalance\<close> emits \<open>onBalanceChanged\<close>, sets the
  dirty flag and stores the new string if and only if the two denote different decimal
  values; otherwise it emits nothing and leaves the flag and the cached string as they were.
\<close>

theorem updateBalance_notifies_iff_value_differs:
  assumes "parse_decimal newBalance = Some a"
      and "parse_decimal (cachedBalance s tk) = Some c"
  shows "\<exists>s'. updateBalance tk newBalance s = (Return (), s')
     \<and> callbacksLog s' =
         callbacksLog s @ (if dval a = dval c then [] else [OnBalanceChanged tk newBalance])
     \<and> walletLocalDataDirty s' = (walletLocalDataDirty s \<or> dval a \<noteq> dval c)
     \<and> totalBalances s' tk = Some (if dval a = dval c then cachedBalance s tk else newBalance)"
  using assms by (rule updateBalance_steps)

text \<open>
  \<^verbatim>\<open>"1.0"\<close> against a cached \<^verbatim>\<open>"1"\<close> notifies nobody; \<^verbatim>\<open>"2"\<close> against it does.
\<close>

theorem updateBalance_notifies_witness:
  "(\<exists>s'. updateBalance ''FIO'' ''1.0'' ((newEngine ''FIO7owner'')\<lparr>totalBalances := [''FIO'' \<mapsto> ''1'']\<rparr>)
            = (Return (), s')
         \<and> callbacksLog s' = [] \<and> walletLocalDataDirty s' = False
         \<and> totalBalances s' ''FIO'' = Some ''1'')
   \<and> (\<exists>s'. updateBalance ''FIO'' ''2'' ((newEngine ''FIO7owner'')\<lparr>totalBalances := [''FIO'' \<mapsto> ''1'']\<rparr>)
            = (Return (), s')
         \<and> callbacksLog s' = [OnBalanceChanged ''FIO'' ''2''] \<and> walletLocalDataDirty s' = True
         \<and> totalBalances s' ''FIO'' = Some ''2'')"
proof -
  let ?s = "(newEngine ''FIO7owner'')\<lparr>totalBalances := [''FIO'' \<mapsto> ''1'']\<rparr>"
  have c: "parse_decimal (cachedBalance ?s ''FIO'') = Some (Decimal 1 0)"
    by (simp add: cachedBalance_def newEngine_def bns_eval)
  have a1: "parse_decimal ''1.0'' = Some (Decimal 10 1)"
    by (simp add: bns_eval)
  have a2: "parse_decimal ''2'' = Some (Decimal 2 0)"
    by (simp add: bns_eval)
  have s: "callbacksLog ?s = []" "walletLocalDataDirty ?s = False"
          "cachedBalance ?s ''FIO'' = ''1''"
    by (simp_all add: newEngine_def cachedBalance_def)
  show ?thesis
    using updateBalance_notifies_iff_value_differs [OF a1 c]
          updateBalance_notifies_iff_value_differs [OF a2 c]
    by (simp add: s dval_def)
qed

section \<open>Account polling when the balance query fails\<close>

lemma multicastServers_all_fail:
  "fst (multicastServers [Inl transportFailure, Inl transportFailure]) = Inl AllEndpointsFailed"
  by (simp add: multicastServers_def endpointClosure_def isFioApiError_def transportFailure_def)

lemma parse_zero: "parse_decimal ''0'' = Some (Decimal 0 0)"
  by (simp add: bns_eval)

lemma checkAccountInnerLoop_failed_balance:
  assumes c: "parse_decimal (cachedBalance s ''FIO'') = Some c"
  shows "\<exists>s'. checkAccountInnerLoop (Inl e) namesResult s = (Return (), s')
     \<and> totalBalances s' ''FIO'' = Some (if dval c = 0 then cachedBalance s ''FIO'' else ''0'')
     \<and> callbacksLog s' =
         callbacksLog s @ (if dval c = 0 then [] else [OnBalanceChanged ''FIO'' ''0''])
     \<and> (dval c \<noteq> 0 \<longrightarrow> walletLocalDataDirty s')"
proof -
  let ?s0 = "s\<lparr>totalBalances := (totalBalances s)(''FIO'' \<mapsto> cachedBalance s ''FIO'')\<rparr>"
  have cb: "cachedBalance ?s0 ''FIO'' = cachedBalance s ''FIO''"
    by (simp add: cachedBalance_def)
  from updateBalance_steps [OF parse_zero, of ?s0 "''FIO''" c] c obtain s1 where
    s1: "updateBalance ''FIO'' ''0'' ?s0 = (Return (), s1)"
        "callbacksLog s1 =
           callbacksLog s @ (if dval c = 0 then [] else [OnBalanceChanged ''FIO'' ''0''])"
        "walletLocalDataDirty s1 = (walletLocalDataDirty s \<or> dval c \<noteq> 0)"
        "totalBalances s1 ''FIO'' = Some (if dval c = 0 then cachedBalance s ''FIO'' else ''0'')"
    by (auto simp: cb dval_def)
  show ?thesis
    unfolding checkAccountInnerLoop_def Let_def
    using s1 by (simp add: localDataDirty_def split: sum.splits prod.splits)
qed

text \<open>
  Claim C7, as the engine has it. When the balance query fails (on every endpoint, or with
  a rejection), the error is caught inside \<open>checkAccountInnerLoop\<close>, which goes on with the
  balance taken as \<^verbatim>\<open>'0'\<close> and returns normally: a cached balance that denotes zero is
  left as it is and nobody is notified; any other cached balance is replaced by \<^verbatim>\<open>'0'\<close>,
  the state is marked dirty and \<open>onBalanceChanged\<close> is emitted with \<^verbatim>\<open>'0'\<close>.
\<close>

theorem checkAccountInnerLoop_failed_balance_query:
  assumes "parse_decimal (cachedBalance s ''FIO'') = Some c"
  shows "\<exists>s'. checkAccountInnerLoop (Inl e) namesResult s = (Return (), s')
     \<and> totalBalances s' ''FIO'' = Some (if dval c = 0 then cachedBalance s ''FIO'' else ''0'')
     \<and> callbacksLog s' =
         callbacksLog s @ (if dval c = 0 then [] else [OnBalanceChanged ''FIO'' ''0''])
     \<and> (dval c \<noteq> 0 \<longrightarrow> walletLocalDataDirty s')"
  using assms by (rule checkAccountInnerLoop_failed_balance)

lemmas example_eval =
  exampleEngine_def newEngine_def cachedBalance_def updateBalance_def checkAccountInnerLoop_def
  emit_def localDataDirty_def updateOnAddressesChecked_def checkDroppedTransactionsThrottled_def

text \<open>A cached \<^verbatim>\<open>"0.0"\<close> survives the failed query; the cached \<^verbatim>\<open>"100"\<close> does not.\<close>

theorem checkAccountInnerLoop_failed_balance_query_witness:
  "(\<exists>s'. checkAccountInnerLoop (Inl AllEndpointsFailed) (Inl AllEndpointsFailed)
            (exampleEngine\<lparr>totalBalances := [''FIO'' \<mapsto> ''0.0'']\<rparr>) = (Return (), s')
         \<and> totalBalances s' ''FIO'' = Some ''0.0'' \<and> callbacksLog s' = [])
   \<and> (\<exists>s'. checkAccountInnerLoop (Inl AllEndpointsFailed) (Inl AllEndpointsFailed) exampleEngine
            = (Return (), s')
         \<and> totalBalances s' ''FIO'' = Some ''0'' \<and> walletLocalDataDirty s'
         \<and> callbacksLog s' = [OnBalanceChanged ''FIO'' ''0''])"
proof -
  let ?z = "exampleEngine\<lparr>totalBalances := [''FIO'' \<mapsto> ''0.0'']\<rparr>"
  have z: "parse_decimal (cachedBalance ?z ''FIO'') = Some (Decimal 0 1)"
    by (simp add: cachedBalance_def bns_eval)
  have h: "parse_decimal (cachedBalance exampleEngine ''FIO'') = Some (Decimal 100 0)"
    by (simp add: cachedBalance_def exampleEngine_def newEngine_def bns_eval)
  have s: "callbacksLog ?z = []" "cachedBalance ?z ''FIO'' = ''0.0''"
          "callbacksLog exampleEngine = []" "cachedBalance exampleEngine ''FIO'' = ''100''"
    by (simp_all add: exampleEngine_def newEngine_def cachedBalance_def)
  show ?thesis
    using checkAccountInnerLoop_failed_balance_query [OF z, of AllEndpointsFailed "Inl AllEndpointsFailed"]
          checkAccountInnerLoop_failed_balance_query [OF h, of AllEndpointsFailed "Inl AllEndpointsFailed"]
    by (auto simp: s dval_def)
qed

text \<open>
  Against claim C7 as stated: both endpoints unreachable, and the cached \<^verbatim>\<open>"100"\<close> is
  overwritten with \<^verbatim>\<open>"0"\<close> and announced.
\<close>

theorem failed_balance_query_overwrites_cached_balance:
  "totalBalances exampleEngine ''FIO'' = Some ''100''
   \<and> totalBalances
        (snd (checkAccountInnerLoop
                (fst (multicastServers [Inl transportFailure, Inl transportFailure]))
                (Inl AllEndpointsFailed) exampleEngine)) ''FIO'' = Some ''0''
   \<and> callbacksLog
        (snd (checkAccountInnerLoop
                (fst (multicastServers [Inl transportFailure, Inl transportFailure]))
                (Inl AllEndpointsFailed) exampleEngine)) = [OnBalanceChanged ''FIO'' ''0'']"
proof -
  have b: "bns_eq ''0'' ''100'' = Some False"
    by (simp add: bns_eval)
  show ?thesis
    by (simp add: multicastServers_all_fail example_eval b Let_def)
qed

section \<open>Block height polling\<close>

lemma checkBlockchainInnerLoop_blockHeight:
  "blockHeight (checkBlockchainInnerLoop info s) =
     (case info of Inl e \<Rightarrow> blockHeight s | Inr i \<Rightarrow> head_block_num i)"
  by (simp add: checkBlockchainInnerLoop_def Let_def emit_def localDataDirty_def
      checkDroppedTransactionsThrottled_def split: sum.splits)

lemma heightPolls_sorted:
  "sorted (blockHeight s # observedHeads infos) \<Longrightarrow>
   sorted (blockHeight s # map blockHeight (heightPolls infos s))"
proof (induction infos arbitrary: s)
  case Nil
  then show ?case by simp
next
  case (Cons info infos)
  show ?case
  proof (cases info)
    case (Inl e)
    with Cons.prems have "sorted (blockHeight (checkBlockchainInnerLoop info s) # observedHeads infos)"
      by (simp add: checkBlockchainInnerLoop_blockHeight)
    from Cons.IH [OF this] Inl show ?thesis
      by (simp add: checkBlockchainInnerLoop_blockHeight)
  next
    case (Inr i)
    with Cons.prems have "sorted (blockHeight (checkBlockchainInnerLoop info s) # observedHeads infos)"
      by (simp add: checkBlockchainInnerLoop_blockHeight)
    from Cons.IH [OF this] Inr Cons.prems show ?thesis
      by (auto simp: checkBlockchainInnerLoop_blockHeight)
  qed
qed

text \<open>
  Claim C8, as the engine has it. A poll that succeeds leaves the cached \<open>blockHeight\<close>
  equal to the observed \<^verbatim>\<open>head_block_num\<close>, whatever it was, and a poll that fails leaves
  it unchanged; so over any sequence of polls the cached height never decreases provided
  the observed heads, starting from the cached height, never decrease.
\<close>

theorem blockHeight_follows_observed_head:
  "blockHeight (checkBlockchainInnerLoop info s) =
     (case info of Inl e \<Rightarrow> blockHeight s | Inr i \<Rightarrow> head_block_num i)
   \<and> (sorted (blockHeight s # observedHeads infos) \<longrightarrow>
        sorted (blockHeight s # map blockHeight (heightPolls infos s)))"
  using checkBlockchainInnerLoop_blockHeight [of info s] heightPolls_sorted [of s infos]
  by blast

theorem blockHeight_follows_observed_head_witness:
  "sorted (blockHeight exampleEngine
            # observedHeads [Inr \<lparr>head_block_num = 101\<rparr>, Inl AllEndpointsFailed,
                             Inr \<lparr>head_block_num = 105\<rparr>])
   \<and> map blockHeight
        (heightPolls [Inr \<lparr>head_block_num = 101\<rparr>, Inl AllEndpointsFailed,
                      Inr \<lparr>head_block_num = 105\<rparr>] exampleEngine) = [101, 101, 105]
   \<and> sorted (blockHeight exampleEngine
            # map blockHeight
                (heightPolls [Inr \<lparr>head_block_num = 101\<rparr>, Inl AllEndpointsFailed,
                              Inr \<lparr>head_block_num = 105\<rparr>] exampleEngine))"
proof -
  have h: "blockHeight exampleEngine = 100"
    by (simp add: exampleEngine_def newEngine_def)
  have o: "sorted (blockHeight exampleEngine
            # observedHeads [Inr \<lparr>head_block_num = 101\<rparr>, Inl AllEndpointsFailed,
                             Inr \<lparr>head_block_num = 105\<rparr>])"
    by (simp add: h)
  have m: "map blockHeight
        (heightPolls [Inr \<lparr>head_block_num = 101\<rparr>, Inl AllEndpointsFailed,
                      Inr \<lparr>head_block_num = 105\<rparr>] exampleEngine) = [101, 101, 105]"
    by (simp add: checkBlockchainInnerLoop_blockHeight)
  from blockHeight_follows_observed_head
         [of "Inl AllEndpointsFailed" exampleEngine
             "[Inr \<lparr>head_block_num = 101\<rparr>, Inl AllEndpointsFailed, Inr \<lparr>head_block_num = 105\<rparr>]"] o
  have "sorted (blockHeight exampleEngine
            # map blockHeight
                (heightPolls [Inr \<lparr>head_block_num = 101\<rparr>, Inl AllEndpointsFailed,
                              Inr \<lparr>head_block_num = 105\<rparr>] exampleEngine))"
    by blast
  with o m show ?thesis by blast
qed

text \<open>
  Against claim C8 as stated: cached height 100, an endpoint reports head 90, and the
  cached height goes down to 90.
\<close>

theorem blockHeight_can_decrease:
  "blockHeight (checkBlockchainInnerLoop (Inr \<lparr>head_block_num = 90\<rparr>) exampleEngine)
     < blockHeight exampleEngine"
  by (simp add: checkBlockchainInnerLoop_blockHeight exampleEngine_def newEngine_def)

section \<open>Resync\<close>



section \<open>The endpoint waterfall\<close>

lemma multicastServers_rejection:
  assumes "isFioApiError e"
  shows "multicastServers (Inl e # outcomes) =
         (Inl (FioError \<lparr>errorCode = errorCode e, message = [], json = json e, list = list e\<rparr>), 1)"
  using assms
  by (simp add: multicastServers_def endpointClosure_def newFioError_def)

lemma multicastServers_failover:
  assumes "\<not> isFioApiError e"
  shows "multicastServers (Inl e # outcomes) =
         (case multicastServers outcomes of (res, n) \<Rightarrow> (res, Suc n))"
  using assms
  by (simp add: multicastServers_def endpointClosure_def
      split: prod.splits sum.splits endpointResult.splits)

text \<open>
  Claim C4, at two endpoints of which the first rejects with code 404 and the message
  \<^verbatim>\<open>Not Found\<close>. One endpoint is tried and a \<open>FioError\<close> is thrown that carries the code,
  \<open>json\<close> and \<open>list\<close> of the rejection; its message is empty, since the constructor is given
  \<^verbatim>\<open>res.errorMessage\<close>, which the error object does not have (the message is under
  \<^verbatim>\<open>res.data.message\<close>).
\<close>

theorem multicastServers_rejection_loses_message:
  "multicastServers [Inl notFoundRejection, Inr \<lparr>fee = 5\<rparr>] =
     (Inl (FioError \<lparr>errorCode = Some 404, message = [],
                     json = ''{message: Public address not found}'',
                     list = [(''fio_public_key'', ''Invalid'')]\<rparr>), 1)
   \<and> message notFoundRejection = ''Not Found''"
proof -
  have "isFioApiError notFoundRejection"
    by (simp add: isFioApiError_def notFoundRejection_def fioApiErrorCodes_def)
  from multicastServers_rejection [OF this, of "[Inr \<lparr>fee = 5\<rparr>]"] show ?thesis
    by (simp add: notFoundRejection_def)
qed

section \<open>Recording a transfer\<close>

lemma processTransaction_height: "fst (processTransaction t actor s) = block_height t"
  by (simp add: processTransaction_def Let_def)

lemma processTransaction_skip:
  assumes "block_height t \<le> highestTxHeight s
           \<or> (action t \<noteq> ''trnsfiopubky'' \<and> action t \<noteq> ''transfer'')"
  shows "processTransaction t actor s = (block_height t, s)"
  using assms by (auto simp: processTransaction_def Let_def)

lemma transactionsOf_addTransaction:
  "transactionsOf (addTransaction cc tx s) cc = transactionsOf s cc @ [tx]"
  by (simp add: addTransaction_def transactionsOf_def localDataDirty_def)

lemma processTransaction_notification:
  assumes "action t = ''trnsfiopubky''" and "highestTxHeight s < block_height t"
  shows "processTransaction t actor s =
     (block_height t,
      addTransaction ''FIO''
        \<lparr>txid = transaction_id t,
         date = DateParseSeconds (block_time t),
         currencyCode = ''FIO'',
         txBlockHeight = (if block_height t > 0 then block_height t else 0),
         nativeAmount =
           (if payee_public_key t = publicKey s
            then (if payer t = actor then ''0'' else show_int (transfer_amount t))
            else CHR ''-'' # show_int (transfer_amount t)),
         networkFee = show_int (fee_amount t),
         parentNetworkFee = Some ''0'',
         ourReceiveAddresses = (if payee_public_key t = publicKey s then [publicKey s] else []),
         signedTx = [],
         otherParams = None,
         metadata = Some ([], ''Recipient Address: '' @ payee_public_key t)\<rparr> s)"
  using assms by (simp add: processTransaction_def Let_def)

text \<open>
  Claim C6. For an ownership-transfer notification (\<^verbatim>\<open>trnsfiopubky\<close>) above the watermark
  whose payee public key is the wallet's and whose payer is the wallet's actor,
  \<open>processTransaction\<close> adds one transaction, with the record's id, \<open>nativeAmount\<close>
  \<^verbatim>\<open>"0"\<close> and the wallet's public key among its \<open>ourReceiveAddresses\<close>.
\<close>

theorem processTransaction_self_transfer_is_zero:
  assumes "action t = ''trnsfiopubky''"
      and "highestTxHeight s < block_height t"
      and "payee_public_key t = publicKey s"
      and "payer t = actor"
  shows "\<exists>tx. processTransaction t actor s = (block_height t, addTransaction ''FIO'' tx s)
           \<and> transactionsOf (snd (processTransaction t actor s)) ''FIO''
               = transactionsOf s ''FIO'' @ [tx]
           \<and> txid tx = transaction_id t
           \<and> nativeAmount tx = ''0''
           \<and> publicKey s \<in> set (ourReceiveAddresses tx)"
  using assms
  by (simp add: processTransaction_notification transactionsOf_addTransaction)

theorem processTransaction_self_transfer_witness:
  "\<exists>tx. transactionsOf
          (snd (processTransaction
                 \<lparr>block_height = 150, block_time = ''2020-06-01T10:00:00'',
                  payer = ''actor1'', payee = ''actor1'', payee_public_key = ''FIO7owner'',
                  transfer_amount = 5000000000, fee_amount = 2000000000,
                  transaction_total = 7000000000, transfer_notes = [],
                  action = ''trnsfiopubky'', tpid = [], transaction_id = ''tx1''\<rparr>
                 ''actor1'' exampleEngine)) ''FIO'' = [tx]
        \<and> txid tx = ''tx1'' \<and> nativeAmount tx = ''0''
        \<and> ourReceiveAddresses tx = [''FIO7owner'']"
proof -
  let ?t = "\<lparr>block_height = 150, block_time = ''2020-06-01T10:00:00'',
                  payer = ''actor1'', payee = ''actor1'', payee_public_key = ''FIO7owner'',
                  transfer_amount = 5000000000, fee_amount = 2000000000,
                  transaction_total = 7000000000, transfer_notes = [],
                  action = ''trnsfiopubky'', tpid = [], transaction_id = ''tx1''\<rparr>"
  have e: "highestTxHeight exampleEngine = 100" "publicKey exampleEngine = ''FIO7owner''"
          "transactionsOf exampleEngine ''FIO'' = []"
    by (simp_all add: exampleEngine_def newEngine_def transactionsOf_def)
  from processTransaction_self_transfer_is_zero [of ?t exampleEngine "''actor1''"]
  obtain tx where
    "transactionsOf (snd (processTransaction ?t ''actor1'' exampleEngine)) ''FIO''
       = transactionsOf exampleEngine ''FIO'' @ [tx]"
    "txid tx = ''tx1''" "nativeAmount tx = ''0''"
    "processTransaction ?t ''actor1'' exampleEngine
       = (block_height ?t, addTransaction ''FIO'' tx exampleEngine)"
    by (auto simp: e)
  moreover from this(4) have "ourReceiveAddresses tx = [''FIO7owner'']"
    by (auto simp: processTransaction_notification e addTransaction_def localDataDirty_def
        transactionsOf_def exampleEngine_def newEngine_def)
  ultimately show ?thesis by (auto simp: e)
qed

section \<open>History sync: the watermark\<close>

lemma processTransaction_frame:
  "highestTxHeight (snd (processTransaction t actor s)) = highestTxHeight s"
  "getTransfersRequests (snd (processTransaction t actor s)) = getTransfersRequests s"
  "publicKey (snd (processTransaction t actor s)) = publicKey s"
  by (simp_all add: processTransaction_def Let_def addTransaction_def localDataDirty_def)

lemma processTransaction_below_watermark:
  "block_height t \<le> highestTxHeight s \<Longrightarrow> snd (processTransaction t actor s) = s"
  by (simp add: processTransaction_skip)

lemma transfersLoop_Cons:
  "transfersLoop actor i (t # ts) nh s =
     (if block_height t > nh
      then transfersLoop actor (Suc i) ts (block_height t) (snd (processTransaction t actor s))
      else if (block_height t = nh \<and> i = 0) \<or> block_height t < highestTxHeight s
      then (True, nh, snd (processTransaction t actor s))
      else transfersLoop actor (Suc i) ts nh (snd (processTransaction t actor s)))"
  using processTransaction_height [of t actor s] processTransaction_frame(1) [of t actor s]
  by (cases "processTransaction t actor s") simp

declare transfersLoop.simps(2) [simp del]

lemma transfersLoop_invariant:
  assumes "transfersLoop actor i ts nh s = (fin, c, s')" and "highestTxHeight s \<le> nh"
  shows "nh \<le> c \<and> highestTxHeight s' = highestTxHeight s
         \<and> getTransfersRequests s' = getTransfersRequests s
         \<and> (c \<le> highestTxHeight s \<longrightarrow> s' = s)"
  using assms
proof (induction ts arbitrary: i nh s)
  case Nil
  then show ?case by simp
next
  case (Cons t ts)
  let ?s1 = "snd (processTransaction t actor s)"
  have f: "highestTxHeight ?s1 = highestTxHeight s"
          "getTransfersRequests ?s1 = getTransfersRequests s"
    by (simp_all add: processTransaction_frame)
  show ?case
  proof (cases "block_height t > nh")
    case True
    with Cons.prems have run: "transfersLoop actor (Suc i) ts (block_height t) ?s1 = (fin, c, s')"
      by (simp add: transfersLoop_Cons)
    from True Cons.prems have "highestTxHeight ?s1 \<le> block_height t"
      by (simp add: f)
    from Cons.IH [OF run this] True Cons.prems show ?thesis
      by (auto simp: f)
  next
    case False
    show ?thesis
    proof (cases "(block_height t = nh \<and> i = 0) \<or> block_height t < highestTxHeight s")
      case True
      with False Cons.prems have r: "fin = True" "c = nh" "s' = ?s1"
        by (simp_all add: transfersLoop_Cons)
      have "c \<le> highestTxHeight s \<Longrightarrow> ?s1 = s"
        using False r(2) by (intro processTransaction_below_watermark) simp
      with r show ?thesis by (simp add: f)
    next
      case stay: False
      with False Cons.prems have run: "transfersLoop actor (Suc i) ts nh ?s1 = (fin, c, s')"
        by (simp add: transfersLoop_Cons)
      from Cons.prems have "highestTxHeight ?s1 \<le> nh"
        by (simp add: f)
      from Cons.IH [OF run this] have ih:
        "nh \<le> c" "highestTxHeight s' = highestTxHeight s"
        "getTransfersRequests s' = getTransfersRequests s"
        "c \<le> highestTxHeight s \<longrightarrow> s' = ?s1"
        by (simp_all add: f)
      have "c \<le> highestTxHeight s \<Longrightarrow> ?s1 = s"
        using False ih(1) by (intro processTransaction_below_watermark) simp
      with ih show ?thesis by auto
    qed
  qed
qed

text \<open>The engine but for the list of cursors requested.\<close>

lemma pagingLoop_invariant:
  assumes "pagingLoop getTransfers actor pos nh s = (r, s')" and "highestTxHeight s \<le> nh"
  shows "highestTxHeight s' = highestTxHeight s
         \<and> (\<forall>c. r = Return c \<longrightarrow>
               nh \<le> c \<and> (c \<le> highestTxHeight s \<longrightarrow>
                            s' = s\<lparr>getTransfersRequests := getTransfersRequests s'\<rparr>))"
  using assms
proof (induction getTransfers actor pos nh s rule: pagingLoop.induct)
  case (1 getTransfers actor pos nh s)
  let ?s0 = "s\<lparr>getTransfersRequests := getTransfersRequests s @ [pos]\<rparr>"
  show ?case
  proof (cases "pos < 0")
    case True
    with "1.prems" show ?thesis
      by (auto simp: pagingLoop.simps [of getTransfers actor pos nh s])
  next
    case False
    show ?thesis
    proof (cases "getTransfers pos")
      case (Inl e)
      with False "1.prems" show ?thesis
        by (auto simp: pagingLoop.simps [of getTransfers actor pos nh s])
    next
      case (Inr page)
      show ?thesis
      proof (cases "sortTransfers page = []")
        case True
        with False Inr "1.prems" show ?thesis
          by (auto simp: pagingLoop.simps [of getTransfers actor pos nh s])
      next
        case nonempty: False
        obtain fin c s1 where loop:
          "transfersLoop actor 0 (sortTransfers page) nh ?s0 = (fin, c, s1)"
          by (cases "transfersLoop actor 0 (sortTransfers page) nh ?s0") auto
        from "1.prems" have "highestTxHeight ?s0 \<le> nh" by simp
        from transfersLoop_invariant [OF loop this] have inv:
          "nh \<le> c" "highestTxHeight s1 = highestTxHeight s"
          "getTransfersRequests s1 = getTransfersRequests s @ [pos]"
          "c \<le> highestTxHeight s \<longrightarrow> s1 = ?s0"
          by simp_all
        show ?thesis
        proof (cases fin)
          case True
          with False Inr nonempty loop "1.prems" have "r = Return c" "s' = s1"
            by (simp_all add: pagingLoop.simps [of getTransfers actor pos nh s])
          with inv show ?thesis by auto
        next
          case notfin: False
          with False Inr nonempty loop "1.prems" have
            run: "pagingLoop getTransfers actor (pos - 10) c s1 = (r, s')"
            by (simp add: pagingLoop.simps [of getTransfers actor pos nh s])
          from inv "1.prems" have le: "highestTxHeight s1 \<le> c" by simp
          from "1.IH" [OF False refl Inr refl nonempty loop [symmetric] refl notfin run le]
          have ih: "highestTxHeight s' = highestTxHeight s1"
            "\<forall>d. r = Return d \<longrightarrow>
               c \<le> d \<and> (d \<le> highestTxHeight s1 \<longrightarrow>
                            s' = s1\<lparr>getTransfersRequests := getTransfersRequests s'\<rparr>)"
            by simp_all
          show ?thesis
          proof (intro conjI allI impI)
            show "highestTxHeight s' = highestTxHeight s"
              using ih(1) inv(2) by simp
          next
            fix d assume "r = Return d"
            with ih(2) inv(1) show "nh \<le> d" by auto
          next
            fix d assume d: "r = Return d" "d \<le> highestTxHeight s"
            with ih(2) inv(2) have "c \<le> d"
              "s' = s1\<lparr>getTransfersRequests := getTransfersRequests s'\<rparr>"
              by auto
            moreover from this(1) d(2) inv(4) have "s1 = ?s0" by simp
            ultimately show "s' = s\<lparr>getTransfersRequests := getTransfersRequests s'\<rparr>"
              by simp
          qed
        qed
      qed
    qed
  qed
qed

lemma checkTransactions_commit:
  assumes walk: "pagingLoop getTransfers actor pos (highestTxHeight s) s = (Return candidate, s1)"
      and pos: "pos \<noteq> 0"
  shows "checkTransactions (Inr (pos # older)) getTransfers actor s =
           (Return True,
            if highestTxHeight s < candidate
            then localDataDirty (s1\<lparr>highestTxHeight := candidate\<rparr>) else s1)"
    and "highestTxHeight s1 = highestTxHeight s"
    and "highestTxHeight s \<le> candidate"
    and "\<not> highestTxHeight s < candidate \<Longrightarrow>
           s1 = s\<lparr>getTransfersRequests := getTransfersRequests s1\<rparr>"
proof -
  from pagingLoop_invariant [OF walk] show w: "highestTxHeight s1 = highestTxHeight s"
    and "highestTxHeight s \<le> candidate"
    and "\<not> highestTxHeight s < candidate \<Longrightarrow>
           s1 = s\<lparr>getTransfersRequests := getTransfersRequests s1\<rparr>"
    by auto
  from walk pos w show "checkTransactions (Inr (pos # older)) getTransfers actor s =
           (Return True,
            if highestTxHeight s < candidate
            then localDataDirty (s1\<lparr>highestTxHeight := candidate\<rparr>) else s1)"
    by (simp add: checkTransactions_def)
qed

lemma sortTransfers_descending3:
  assumes "block_height t2 \<le> block_height t1" "block_height t3 \<le> block_height t2"
  shows "sortTransfers [t1, t2, t3] = [t1, t2, t3]"
  using assms by (simp add: sortTransfers_def)

lemma scenario_walk:
  assumes h: "highestTxHeight s = 100"
      and pos: "10 \<le> pos"
      and p1: "getTransfers pos = Inr [t1, t2, t3]"
      and h1: "block_height t1 = 150" "block_height t2 = 140" "block_height t3 = 130"
      and p2: "getTransfers (pos - 10) = Inr [t4, t5, t6]"
      and h2: "block_height t4 = 120" "block_height t5 = 110" "block_height t6 = 90"
  shows "\<exists>s1. pagingLoop getTransfers actor pos 100 s = (Return 150, s1)
             \<and> getTransfersRequests s1 = getTransfersRequests s @ [pos, pos - 10]"
proof -
  let ?s0 = "s\<lparr>getTransfersRequests := getTransfersRequests s @ [pos]\<rparr>"
  let ?s3 = "snd (processTransaction t3 actor (snd (processTransaction t2 actor
               (snd (processTransaction t1 actor ?s0)))))"
  let ?s4 = "?s3\<lparr>getTransfersRequests := getTransfersRequests ?s3 @ [pos - 10]\<rparr>"
  let ?s6 = "snd (processTransaction t6 actor (snd (processTransaction t5 actor
               (snd (processTransaction t4 actor ?s4)))))"
  have loop1: "transfersLoop actor 0 [t1, t2, t3] 100 ?s0 = (False, 150, ?s3)"
    by (simp add: transfersLoop_Cons h1 h processTransaction_frame)
  have loop2: "transfersLoop actor 0 [t4, t5, t6] 150 ?s4 = (True, 150, ?s6)"
    by (simp add: transfersLoop_Cons h2 h processTransaction_frame)
  have page1: "pagingLoop getTransfers actor pos 100 s
               = pagingLoop getTransfers actor (pos - 10) 150 ?s3"
    using pos
    by (simp add: pagingLoop.simps [of getTransfers actor pos 100 s] p1
        sortTransfers_descending3 h1 loop1)
  have page2: "pagingLoop getTransfers actor (pos - 10) 150 ?s3 = (Return 150, ?s6)"
    using pos
    by (simp add: pagingLoop.simps [of getTransfers actor "pos - 10" 150 ?s3] p2
        sortTransfers_descending3 h2 loop2)
  have "getTransfersRequests ?s6 = getTransfersRequests s @ [pos, pos - 10]"
    by (simp add: processTransaction_frame)
  with page1 page2 show ?thesis by simp
qed

text \<open>
  Claim C2. First, in general: when the walk from a cursor \<open>pos\<close> returns a candidate,
  \<open>checkTransactions\<close> commits it to \<open>highestTxHeight\<close> and marks the state dirty exactly when
  it exceeds the recorded watermark; the walk itself never writes the watermark, its
  candidate is never below it, and when the candidate does not exceed it the walk has
  changed nothing (the dirty flag included). Second, the scenario: with the watermark at
  100, a page of heights 150, 140, 130 at the cursor and a page of heights 120, 110, 90 ten
  below it, the cycle commits 150, marks the state dirty, and asks for these two pages and
  no more: the record of height 90 ends the paging.
\<close>

theorem checkTransactions_commits_watermark:
  "(pagingLoop getTransfers actor pos (highestTxHeight s) s = (Return candidate, s1) \<and> pos \<noteq> 0
      \<longrightarrow> checkTransactions (Inr (pos # older)) getTransfers actor s =
            (Return True,
             if highestTxHeight s < candidate
             then localDataDirty (s1\<lparr>highestTxHeight := candidate\<rparr>) else s1)
          \<and> highestTxHeight s1 = highestTxHeight s
          \<and> highestTxHeight s \<le> candidate
          \<and> (\<not> highestTxHeight s < candidate \<longrightarrow>
                s1 = s\<lparr>getTransfersRequests := getTransfersRequests s1\<rparr>))
   \<and> (highestTxHeight s = 100 \<and> 10 \<le> pos
        \<and> getTransfers pos = Inr [t1, t2, t3]
        \<and> map block_height [t1, t2, t3] = [150, 140, 130]
        \<and> getTransfers (pos - 10) = Inr [t4, t5, t6]
        \<and> map block_height [t4, t5, t6] = [120, 110, 90]
      \<longrightarrow> (\<exists>s'. checkTransactions (Inr (pos # older)) getTransfers actor s = (Return True, s')
               \<and> highestTxHeight s' = 150 \<and> walletLocalDataDirty s'
               \<and> getTransfersRequests s' = getTransfersRequests s @ [pos, pos - 10]))"
proof (intro conjI impI)
  assume a: "pagingLoop getTransfers actor pos (highestTxHeight s) s = (Return candidate, s1)
             \<and> pos \<noteq> 0"
  then have walk: "pagingLoop getTransfers actor pos (highestTxHeight s) s = (Return candidate, s1)"
    and pos: "pos \<noteq> 0"
    by simp_all
  from checkTransactions_commit(1) [OF walk pos, of older]
       checkTransactions_commit(2,3) [OF walk pos]
  show "checkTransactions (Inr (pos # older)) getTransfers actor s =
            (Return True,
             if highestTxHeight s < candidate
             then localDataDirty (s1\<lparr>highestTxHeight := candidate\<rparr>) else s1)"
    and "highestTxHeight s1 = highestTxHeight s"
    and "highestTxHeight s \<le> candidate"
    by simp_all
  assume "\<not> highestTxHeight s < candidate"
  with checkTransactions_commit(4) [OF walk pos]
  show "s1 = s\<lparr>getTransfersRequests := getTransfersRequests s1\<rparr>" .
next
  assume a: "highestTxHeight s = 100 \<and> 10 \<le> pos
        \<and> getTransfers pos = Inr [t1, t2, t3]
        \<and> map block_height [t1, t2, t3] = [150, 140, 130]
        \<and> getTransfers (pos - 10) = Inr [t4, t5, t6]
        \<and> map block_height [t4, t5, t6] = [120, 110, 90]"
  then have h: "highestTxHeight s = 100" and pos: "10 \<le> pos" by simp_all
  from a scenario_walk [of s pos getTransfers t1 t2 t3 t4 t5 t6 actor]
  obtain s1 where walk: "pagingLoop getTransfers actor pos (highestTxHeight s) s = (Return 150, s1)"
    and req: "getTransfersRequests s1 = getTransfersRequests s @ [pos, pos - 10]"
    by auto
  from pos have "pos \<noteq> 0" by simp
  from checkTransactions_commit(1) [OF walk this, of older] h req
  show "\<exists>s'. checkTransactions (Inr (pos # older)) getTransfers actor s = (Return True, s')
               \<and> highestTxHeight s' = 150 \<and> walletLocalDataDirty s'
               \<and> getTransfersRequests s' = getTransfersRequests s @ [pos, pos - 10]"
    by (simp add: localDataDirty_def)
qed

lemmas history_eval =
  example_eval exampleTransfer_def scenarioPages_def sameIdPage_def processTransaction_def
  addTransaction_def findTransaction_def transactionsOf_def sortTransfers_def
  checkTransactions_def

text \<open>
  The scenario at the example wallet, the cursor at 20: there is a page at cursor 0, and it
  is not asked for.
\<close>

theorem checkTransactions_commits_watermark_witness:
  "highestTxHeight exampleEngine = 100
   \<and> scenarioPages 20 = Inr [exampleTransfer 150 ''trnsfiopubky'' ''tx150'',
                              exampleTransfer 140 ''trnsfiopubky'' ''tx140'',
                              exampleTransfer 130 ''trnsfiopubky'' ''tx130'']
   \<and> scenarioPages (20 - 10) = Inr [exampleTransfer 120 ''trnsfiopubky'' ''tx120'',
                                     exampleTransfer 110 ''trnsfiopubky'' ''tx110'',
                                     exampleTransfer 90 ''trnsfiopubky'' ''tx90'']
   \<and> scenarioPages 0 = Inr [exampleTransfer 80 ''trnsfiopubky'' ''tx80'']
   \<and> (\<exists>s1. pagingLoop scenarioPages ''actor1'' 20 (highestTxHeight exampleEngine) exampleEngine
               = (Return 150, s1)
          \<and> highestTxHeight s1 = 100
          \<and> checkTransactions (Inr [20]) scenarioPages ''actor1'' exampleEngine
               = (Return True, localDataDirty (s1\<lparr>highestTxHeight := 150\<rparr>)))
   \<and> (\<exists>s'. checkTransactions (Inr [20]) scenarioPages ''actor1'' exampleEngine = (Return True, s')
          \<and> highestTxHeight s' = 150 \<and> walletLocalDataDirty s'
          \<and> getTransfersRequests s' = [20, 10])"
proof -
  let ?t1 = "exampleTransfer 150 ''trnsfiopubky'' ''tx150''"
  let ?t2 = "exampleTransfer 140 ''trnsfiopubky'' ''tx140''"
  let ?t3 = "exampleTransfer 130 ''trnsfiopubky'' ''tx130''"
  let ?t4 = "exampleTransfer 120 ''trnsfiopubky'' ''tx120''"
  let ?t5 = "exampleTransfer 110 ''trnsfiopubky'' ''tx110''"
  let ?t6 = "exampleTransfer 90 ''trnsfiopubky'' ''tx90''"
  have e: "highestTxHeight exampleEngine = 100" "getTransfersRequests exampleEngine = []"
    by (simp_all add: exampleEngine_def newEngine_def)
  have p: "scenarioPages 20 = Inr [?t1, ?t2, ?t3]" "scenarioPages (20 - 10) = Inr [?t4, ?t5, ?t6]"
    "scenarioPages 0 = Inr [exampleTransfer 80 ''trnsfiopubky'' ''tx80'']"
    by (simp_all add: scenarioPages_def)
  have m: "map block_height [?t1, ?t2, ?t3] = [150, 140, 130]"
    "map block_height [?t4, ?t5, ?t6] = [120, 110, 90]"
    by (simp_all add: exampleTransfer_def)
  from scenario_walk [OF e(1) _ p(1) _ _ _ p(2), of "''actor1''"] obtain s1 where
    walk: "pagingLoop scenarioPages ''actor1'' 20 (highestTxHeight exampleEngine) exampleEngine
             = (Return 150, s1)"
    by (auto simp: e exampleTransfer_def)
  note inst = checkTransactions_commits_watermark
         [where getTransfers = scenarioPages and actor = "''actor1''" and pos = 20
            and s = exampleEngine and candidate = 150 and ?s1.0 = s1 and older = "[]"
            and ?t1.0 = ?t1 and ?t2.0 = ?t2 and ?t3.0 = ?t3
            and ?t4.0 = ?t4 and ?t5.0 = ?t5 and ?t6.0 = ?t6]
  from inst walk e have general:
    "highestTxHeight s1 = 100"
    "checkTransactions (Inr [20]) scenarioPages ''actor1'' exampleEngine
       = (Return True, localDataDirty (s1\<lparr>highestTxHeight := 150\<rparr>))"
    by simp_all
  from inst e p m have scenario:
    "\<exists>s'. checkTransactions (Inr [20]) scenarioPages ''actor1'' exampleEngine = (Return True, s')
          \<and> highestTxHeight s' = 150 \<and> walletLocalDataDirty s'
          \<and> getTransfersRequests s' = [20, 10]"
    by simp
  from walk general have
    "\<exists>s1. pagingLoop scenarioPages ''actor1'' 20 (highestTxHeight exampleEngine) exampleEngine
               = (Return 150, s1)
          \<and> highestTxHeight s1 = 100
          \<and> checkTransactions (Inr [20]) scenarioPages ''actor1'' exampleEngine
               = (Return True, localDataDirty (s1\<lparr>highestTxHeight := 150\<rparr>))"
    by blast
  with scenario e p show ?thesis by blast
qed

section \<open>History sync: skipped records and repeated ids\<close>

lemma findIndex_lower: "- 1 \<le> findIndex P xs"
  by (induction xs) (simp_all add: Let_def)

lemma findIndex_found: "- 1 < findIndex P xs \<longleftrightarrow> (\<exists>x \<in> set xs. P x)"
proof (induction xs)
  case Nil
  then show ?case by simp
next
  case (Cons x xs)
  from findIndex_lower [of P xs] have "findIndex P xs < 0 \<longleftrightarrow> \<not> - 1 < findIndex P xs"
    by arith
  with Cons show ?case
    using findIndex_lower [of P xs] by (auto simp: Let_def)
qed

lemma feesFreshFrom_snoc:
  "feesFreshFrom seen (txs @ [tx]) \<longleftrightarrow>
     feesFreshFrom seen txs \<and> (isFee tx \<longrightarrow> txid tx \<notin> set seen \<union> txid ` set txs)"
  by (induction txs arbitrary: seen) auto

lemma processTransaction_already_recorded:
  assumes "action t = ''transfer''" and "- 1 < findTransaction ''FIO'' (transaction_id t) s"
  shows "processTransaction t actor s = (block_height t, s)"
  using assms by (simp add: processTransaction_def Let_def)

lemma processTransaction_feesFresh:
  assumes "feesFresh s"
  shows "feesFresh (snd (processTransaction t actor s))"
proof (cases "block_height t \<le> highestTxHeight s
              \<or> (action t \<noteq> ''trnsfiopubky'' \<and> action t \<noteq> ''transfer'')")
  case True
  with assms show ?thesis by (simp add: processTransaction_skip)
next
  case False
  then have above: "highestTxHeight s < block_height t"
    and kind: "action t = ''trnsfiopubky'' \<or> action t = ''transfer''"
    by auto
  from kind show ?thesis
  proof
    assume "action t = ''trnsfiopubky''"
    with above assms show ?thesis
      by (simp add: processTransaction_notification feesFresh_def
          transactionsOf_addTransaction feesFreshFrom_snoc isFee_def)
  next
    assume tr: "action t = ''transfer''"
    show ?thesis
    proof (cases "- 1 < findTransaction ''FIO'' (transaction_id t) s")
      case True
      with tr assms show ?thesis
        by (simp add: processTransaction_already_recorded)
    next
      case False
      then have "transaction_id t \<notin> txid ` set (transactionsOf s ''FIO'')"
        by (auto simp: findTransaction_def findIndex_found)
      with False tr above assms show ?thesis
        by (simp add: processTransaction_def Let_def feesFresh_def
            transactionsOf_addTransaction feesFreshFrom_snoc)
    qed
  qed
qed

lemma transfersLoop_feesFresh:
  "feesFresh s \<Longrightarrow> feesFresh (snd (snd (transfersLoop actor i ts nh s)))"
proof (induction ts arbitrary: i nh s)
  case Nil
  then show ?case by simp
next
  case (Cons t ts)
  from Cons.prems have "feesFresh (snd (processTransaction t actor s))"
    by (rule processTransaction_feesFresh)
  with Cons.IH show ?case
    by (simp add: transfersLoop_Cons)
qed

lemma feesFresh_requests [simp]:
  "feesFresh (s\<lparr>getTransfersRequests := r\<rparr>) = feesFresh s"
  by (simp add: feesFresh_def transactionsOf_def)

lemma pagingLoop_feesFresh:
  "feesFresh s \<Longrightarrow> feesFresh (snd (pagingLoop getTransfers actor pos nh s))"
proof (induction getTransfers actor pos nh s rule: pagingLoop.induct)
  case (1 getTransfers actor pos nh s)
  let ?s0 = "s\<lparr>getTransfersRequests := getTransfersRequests s @ [pos]\<rparr>"
  show ?case
  proof (cases "pos < 0")
    case True
    with "1.prems" show ?thesis
      by (simp add: pagingLoop.simps [of getTransfers actor pos nh s])
  next
    case False
    show ?thesis
    proof (cases "getTransfers pos")
      case (Inl e)
      with False "1.prems" show ?thesis
        by (simp add: pagingLoop.simps [of getTransfers actor pos nh s])
    next
      case (Inr page)
      show ?thesis
      proof (cases "sortTransfers page = []")
        case True
        with False Inr "1.prems" show ?thesis
          by (simp add: pagingLoop.simps [of getTransfers actor pos nh s])
      next
        case nonempty: False
        obtain fin c s1 where loop:
          "transfersLoop actor 0 (sortTransfers page) nh ?s0 = (fin, c, s1)"
          by (cases "transfersLoop actor 0 (sortTransfers page) nh ?s0") auto
        from "1.prems" have "feesFresh ?s0" by simp
        from transfersLoop_feesFresh [OF this, of actor 0 "sortTransfers page" nh] loop
        have fresh: "feesFresh s1" by simp
        show ?thesis
        proof (cases fin)
          case True
          with False Inr nonempty loop fresh show ?thesis
            by (simp add: pagingLoop.simps [of getTransfers actor pos nh s])
        next
          case notfin: False
          from "1.IH" [OF False refl Inr refl nonempty loop [symmetric] refl notfin fresh]
          have "feesFresh (snd (pagingLoop getTransfers actor (pos - 10) c s1))" .
          with False Inr nonempty loop notfin show ?thesis
            by (simp add: pagingLoop.simps [of getTransfers actor pos nh s])
        qed
      qed
    qed
  qed
qed

lemma checkTransactions_feesFresh:
  assumes "feesFresh s"
  shows "feesFresh (snd (checkTransactions lastActionObject getTransfers actor s))"
proof -
  have upd: "feesFresh (localDataDirty (x\<lparr>highestTxHeight := h\<rparr>)) = feesFresh x" for x h
    by (simp add: feesFresh_def transactionsOf_def localDataDirty_def)
  have walk: "feesFresh x"
    if "pagingLoop getTransfers actor pos (highestTxHeight s) s = (r, x)" for pos r x
    using pagingLoop_feesFresh [OF assms, of getTransfers actor pos "highestTxHeight s"] that
    by simp
  with assms show ?thesis
    by (auto simp: checkTransactions_def Let_def upd
        split: sum.splits list.splits prod.splits completion.splits)
qed

lemma checkTransactionsInnerLoop_feesFresh:
  assumes "feesFresh s"
  shows "feesFresh (checkTransactionsInnerLoop lastActionObject getTransfers actor s)"
proof -
  have "feesFresh (snd (checkTransactions lastActionObject getTransfers actor s))"
    using assms by (rule checkTransactions_feesFresh)
  then show ?thesis
    by (auto simp: checkTransactionsInnerLoop_def Let_def feesFresh_def transactionsOf_def
        updateOnAddressesChecked_def emit_def split: prod.splits completion.splits)
qed

lemma syncCycles_feesFresh:
  "feesFresh s \<Longrightarrow> feesFresh (syncCycles cycles actor s)"
proof (induction cycles arbitrary: s)
  case Nil
  then show ?case by simp
next
  case (Cons cycle cycles)
  obtain lastActionObject getTransfers where c: "cycle = (lastActionObject, getTransfers)"
    by (cases cycle) auto
  from Cons.prems have "feesFresh (checkTransactionsInnerLoop lastActionObject getTransfers actor s)"
    by (rule checkTransactionsInnerLoop_feesFresh)
  from Cons.IH [OF this] c show ?case by simp
qed

lemma pagingLoop_done:
  "pos < 0 \<Longrightarrow> pagingLoop getTransfers actor pos nh s = (Return nh, s)"
  by (simp add: pagingLoop.simps [of getTransfers actor pos nh s])

lemma exampleTransfer_fields [simp]:
  "block_height (exampleTransfer h kind tid) = h"
  "action (exampleTransfer h kind tid) = kind"
  "transaction_id (exampleTransfer h kind tid) = tid"
  by (simp_all add: exampleTransfer_def)

lemma exampleEngine_fields:
  "highestTxHeight exampleEngine = 100"
  "transactionsOf exampleEngine ''FIO'' = []"
  "getTransfersRequests exampleEngine = []"
  "publicKey exampleEngine = ''FIO7owner''"
  by (simp_all add: exampleEngine_def newEngine_def transactionsOf_def)

lemma processTransaction_fee:
  assumes "action t = ''transfer''" and "highestTxHeight s < block_height t"
      and "\<not> - 1 < findTransaction ''FIO'' (transaction_id t) s"
  shows "processTransaction t actor s =
     (block_height t,
      addTransaction ''FIO''
        \<lparr>txid = transaction_id t,
         date = DateParseSeconds (block_time t),
         currencyCode = ''FIO'',
         txBlockHeight = (if block_height t > 0 then block_height t else 0),
         nativeAmount = CHR ''-'' # show_int (transfer_amount t),
         networkFee = ''0'',
         parentNetworkFee = None,
         ourReceiveAddresses = [],
         signedTx = [],
         otherParams = None,
         metadata = Some (''FIO fee'', transfer_notes t)\<rparr> s)"
  using assms by (simp add: processTransaction_def Let_def)

lemma sameIdPage_walk:
  "\<exists>s1. pagingLoop sameIdPage ''actor1'' 1 (highestTxHeight exampleEngine) exampleEngine
           = (Return 150, s1)
        \<and> map txid (transactionsOf s1 ''FIO'') = [''tx1'', ''tx1'']
        \<and> map isFee (transactionsOf s1 ''FIO'') = [True, False]"
proof -
  let ?fee = "exampleTransfer 150 ''transfer'' ''tx1''"
  let ?note = "exampleTransfer 150 ''trnsfiopubky'' ''tx1''"
  let ?s0 = "exampleEngine\<lparr>getTransfersRequests := [1]\<rparr>"
  let ?s1 = "snd (processTransaction ?fee ''actor1'' ?s0)"
  let ?s2 = "snd (processTransaction ?note ''actor1'' ?s1)"
  have srt: "sortTransfers [?fee, ?note] = [?fee, ?note]"
    by (simp add: sortTransfers_def)
  have loop: "transfersLoop ''actor1'' 0 [?fee, ?note] 100 ?s0 = (False, 150, ?s2)"
    by (simp add: transfersLoop_Cons processTransaction_frame exampleEngine_fields)
  have walk: "pagingLoop sameIdPage ''actor1'' 1 (highestTxHeight exampleEngine) exampleEngine
              = (Return 150, ?s2)"
    by (simp add: pagingLoop.simps [of sameIdPage "''actor1''" 1 100 exampleEngine]
        exampleEngine_fields sameIdPage_def srt loop pagingLoop_done)
  have t0: "transactionsOf ?s0 ''FIO'' = []"
    using exampleEngine_fields(2) by (simp add: transactionsOf_def)
  then have "\<not> - 1 < findTransaction ''FIO'' (transaction_id ?fee) ?s0"
    by (simp add: findTransaction_def)
  from processTransaction_fee [OF _ _ this, of "''actor1''"] t0
  have t1: "map txid (transactionsOf ?s1 ''FIO'') = [''tx1'']"
           "map isFee (transactionsOf ?s1 ''FIO'') = [True]"
    by (simp_all add: exampleEngine_fields transactionsOf_addTransaction isFee_def)
  have "highestTxHeight ?s1 < block_height ?note"
    by (simp add: processTransaction_frame exampleEngine_fields)
  from processTransaction_notification [OF _ this, of "''actor1''"] t1
  have "map txid (transactionsOf ?s2 ''FIO'') = [''tx1'', ''tx1'']"
       "map isFee (transactionsOf ?s2 ''FIO'') = [True, False]"
    by (simp_all add: transactionsOf_addTransaction isFee_def)
  with walk show ?thesis by (intro exI conjI)
qed

text \<open>
  Claim C1, as the engine has it. In every state, and so in every cycle of every sequence of
  history-sync cycles, \<open>processTransaction\<close> returns the record's height and changes nothing
  for a record at or below the watermark or of a kind other than the two recognised, and
  likewise for a value-transfer (\<^verbatim>\<open>transfer\<close>) record whose id \<open>findTransaction\<close> finds
  recorded. Over any sequence of cycles no fee transaction is ever appended under an id
  that the list already holds. An ownership-transfer notification is appended without any
  look-up of its id.
\<close>

theorem processTransaction_skips_and_fee_dedupe:
  "((block_height t \<le> highestTxHeight s
       \<or> (action t \<noteq> ''trnsfiopubky'' \<and> action t \<noteq> ''transfer''))
      \<longrightarrow> processTransaction t actor s = (block_height t, s))
   \<and> (action t = ''transfer'' \<and> - 1 < findTransaction ''FIO'' (transaction_id t) s
      \<longrightarrow> processTransaction t actor s = (block_height t, s))
   \<and> (feesFresh s \<longrightarrow> feesFresh (syncCycles cycles actor s))"
  using processTransaction_skip [of t s actor]
        processTransaction_already_recorded [of t s actor]
        syncCycles_feesFresh [of s cycles actor]
  by blast

text \<open>
  At the example wallet: a record at height 90 and a record of another kind are skipped;
  after one cycle over the page of the fee and the notification of \<^verbatim>\<open>tx1\<close>, a second
  fee record of \<^verbatim>\<open>tx1\<close> is skipped, and fee ids stay fresh over two such cycles.
\<close>

theorem processTransaction_skips_and_fee_dedupe_witness:
  "processTransaction (exampleTransfer 90 ''trnsfiopubky'' ''tx90'') ''actor1'' exampleEngine
     = (90, exampleEngine)
   \<and> processTransaction (exampleTransfer 150 ''regaddress'' ''tx7'') ''actor1'' exampleEngine
     = (150, exampleEngine)
   \<and> - 1 < findTransaction ''FIO'' ''tx1''
             (snd (checkTransactions (Inr [1]) sameIdPage ''actor1'' exampleEngine))
   \<and> processTransaction (exampleTransfer 160 ''transfer'' ''tx1'') ''actor1''
        (snd (checkTransactions (Inr [1]) sameIdPage ''actor1'' exampleEngine))
     = (160, snd (checkTransactions (Inr [1]) sameIdPage ''actor1'' exampleEngine))
   \<and> feesFresh exampleEngine
   \<and> feesFresh (syncCycles [(Inr [1], sameIdPage), (Inr [1], sameIdPage)] ''actor1'' exampleEngine)"
proof -
  let ?after = "snd (checkTransactions (Inr [1]) sameIdPage ''actor1'' exampleEngine)"
  from sameIdPage_walk obtain s1 where
    walk: "pagingLoop sameIdPage ''actor1'' 1 (highestTxHeight exampleEngine) exampleEngine
           = (Return 150, s1)"
    and ids: "map txid (transactionsOf s1 ''FIO'') = [''tx1'', ''tx1'']"
    by (elim exE conjE)
  have "transactionsOf ?after ''FIO'' = transactionsOf s1 ''FIO''"
    using checkTransactions_commit(1) [OF walk, of "[]"]
    by (simp add: transactionsOf_def localDataDirty_def)
  with ids have "\<exists>x \<in> set (transactionsOf ?after ''FIO''). txid x = ''tx1''"
    by (cases "transactionsOf s1 ''FIO''") auto
  then have found: "- 1 < findTransaction ''FIO'' ''tx1'' ?after"
    by (simp add: findTransaction_def findIndex_found)
  have fresh: "feesFresh exampleEngine"
    by (simp add: feesFresh_def exampleEngine_fields)
  from processTransaction_skips_and_fee_dedupe
         [of "exampleTransfer 90 ''trnsfiopubky'' ''tx90''" exampleEngine "''actor1''"]
  have a: "processTransaction (exampleTransfer 90 ''trnsfiopubky'' ''tx90'') ''actor1'' exampleEngine
           = (90, exampleEngine)"
    by (simp add: exampleEngine_fields)
  from processTransaction_skips_and_fee_dedupe
         [of "exampleTransfer 150 ''regaddress'' ''tx7''" exampleEngine "''actor1''"]
  have b: "processTransaction (exampleTransfer 150 ''regaddress'' ''tx7'') ''actor1'' exampleEngine
           = (150, exampleEngine)"
    by simp
  from processTransaction_skips_and_fee_dedupe
         [of "exampleTransfer 160 ''transfer'' ''tx1''" ?after "''actor1''"] found
  have c: "processTransaction (exampleTransfer 160 ''transfer'' ''tx1'') ''actor1'' ?after
           = (160, ?after)"
    by simp
  have d: "feesFresh (syncCycles [(Inr [1], sameIdPage), (Inr [1], sameIdPage)] ''actor1'' exampleEngine)"
    by (rule processTransaction_skips_and_fee_dedupe
               [where s = exampleEngine and actor = "''actor1''"
                  and cycles = "[(Inr [1], sameIdPage), (Inr [1], sameIdPage)]",
                THEN conjunct2, THEN conjunct2, THEN mp, OF fresh])
  from a b found c fresh d show ?thesis by (intro conjI)
qed

text \<open>
  Against claim C1 as stated: one cycle over a page that holds the fee record and the
  notification of one transaction, and \<open>addTransaction\<close> has been called twice for
  \<^verbatim>\<open>('FIO', 'tx1')\<close>: the list of the ids recorded is \<^verbatim>\<open>tx1, tx1\<close>.
\<close>

theorem notification_repeats_transaction_id:
  "transactionsOf exampleEngine ''FIO'' = []
   \<and> map txid (transactionsOf
                 (snd (checkTransactions (Inr [1]) sameIdPage ''actor1'' exampleEngine)) ''FIO'')
       = [''tx1'', ''tx1'']"
proof -
  from sameIdPage_walk obtain s1 where
    walk: "pagingLoop sameIdPage ''actor1'' 1 (highestTxHeight exampleEngine) exampleEngine
           = (Return 150, s1)"
    and ids: "map txid (transactionsOf s1 ''FIO'') = [''tx1'', ''tx1'']"
    by (elim exE conjE)
  have "transactionsOf (snd (checkTransactions (Inr [1]) sameIdPage ''actor1'' exampleEngine)) ''FIO''
        = transactionsOf s1 ''FIO''"
    using checkTransactions_commit(1) [OF walk, of "[]"]
    by (simp add: transactionsOf_def localDataDirty_def)
  with ids show ?thesis
    by (simp add: exampleEngine_fields)
qed

end
